theory Spec2Isabelle
  imports Main "HOL-Library.Sublist"
begin

section \<open>Errors\<close>

text \<open>
  The values the TypeScript code throws.  \<open>AbortError\<close> is node-fetch's cancellation
  error, \<open>FetcherError message url fatal\<close> is the class of \<open>utils/Fetcher.ts\<close>,
  \<open>OtherError message\<close> is any other instance of \<open>Error\<close> (a network \<open>FetchError\<close>,
  a \<open>TypeError\<close>, a file-system error, the limiter's drop error), and
  \<open>ThrownValue\<close> is a thrown value that is not an \<open>Error\<close> instance.
\<close>

datatype error =
    AbortError string
  | FetcherError string string bool
  | OtherError string
  | ThrownValue string

text \<open>\<open>error instanceof Error ? error.message : error\<close>\<close>

fun errMsg :: "error \<Rightarrow> string" where
  "errMsg (AbortError m) = m"
| "errMsg (FetcherError m u f) = m"
| "errMsg (OtherError m) = m"
| "errMsg (ThrownValue v) = v"

text \<open>
  \<open>error instanceof AbortError || (error instanceof FetcherError && error.fatal)\<close>:
  the test of \<open>#isErrorNonContinuable\<close>, written inline in the catch blocks of the
  fetcher as well.
\<close>

fun isErrorNonContinuable :: "error \<Rightarrow> bool" where
  "isErrorNonContinuable (AbortError m) = True"
| "isErrorNonContinuable (FetcherError m u f) = f"
| "isErrorNonContinuable (OtherError m) = False"
| "isErrorNonContinuable (ThrownValue v) = False"

section \<open>Numbers in template strings\<close>

text \<open>
  \<open>`${n}`\<close> for a non-negative integral JavaScript number below \<open>10^21\<close> is its decimal
  numeral.  Identifiers are modelled as integers; \<open>show_int\<close> covers a negative one.
\<close>

definition digit_char :: "nat \<Rightarrow> char" where
  "digit_char d = ''0123456789'' ! (d mod 10)"

function show_nat :: "nat \<Rightarrow> string" where
  "show_nat n = (if n < 10 then [digit_char n] else show_nat (n div 10) @ [digit_char n])"
  by pat_completeness auto
termination
  by (relation "measure (\<lambda>n. n)") auto

declare show_nat.simps [simp del]

definition show_int :: "int \<Rightarrow> string" where
  "show_int i = (if i < 0 then CHR ''-'' # show_nat (nat (- i)) else show_nat (nat i))"

text \<open>\<open>Array.prototype.findIndex\<close>: the first index, \<open>None\<close> for \<open>-1\<close>.\<close>

fun findIndex :: "('a \<Rightarrow> bool) \<Rightarrow> 'a list \<Rightarrow> nat option" where
  "findIndex P [] = None"
| "findIndex P (x # xs) =
     (if P x then Some 0 else map_option Suc (findIndex P xs))"

text \<open>A JavaScript string is truthy when it is defined and not empty.\<close>

fun truthy :: "string option \<Rightarrow> string option" where
  "truthy None = None"
| "truthy (Some v) = (if v = [] then None else Some v)"

section \<open>The fetcher (utils/Fetcher.ts)\<close>

subsection \<open>Requests, responses and the environment\<close>

datatype http_method = GET | HEAD

record request =
  req_url :: string
  req_method :: http_method
  req_headers :: "(string \<times> string) list"

record response =
  status :: nat
  statusText :: string
  resp_location :: "string option"
  resp_disposition :: "string option"
  resp_body :: "string option"
  resp_url :: string

text \<open>\<open>response.ok\<close>: the status is in the range 200 to 299.\<close>

definition ok :: "response \<Rightarrow> bool" where
  "ok res = (200 \<le> status res \<and> status res \<le> 299)"

text \<open>
  What piping the body into the write stream of the temporary file does: it completes,
  or it fails with an error after the file received a prefix of the body
  (\<open>Some k\<close>: the first \<open>k\<close> bytes) or before the file was created (\<open>None\<close>).
\<close>

datatype pipe_outcome = PipeOK | PipeFailed error "nat option"

text \<open>
  The fetcher object together with everything outside the program that its methods
  consult.  The first argument of every oracle is the retry counter \<open>rt\<close> of the attempt
  that asks, so that successive attempts may meet different conditions.
  \<^item> \<open>cookie\<close>: the field \<open>#cookie\<close>;
  \<^item> \<open>url_host\<close>: \<open>new URL(u).host\<close>, \<open>None\<close> when the constructor throws (a relative or
    malformed URL); \<open>new Request(u)\<close> throws on the same inputs;
  \<^item> \<open>net\<close>: \<open>fetch(request, {signal, redirect: 'manual'})\<close>;
  \<^item> \<open>net_follow\<close>: \<open>fetch(request)\<close>, redirects left to the HTTP client;
  \<^item> \<open>read_err\<close>: a failure of \<open>res.text()\<close>;
  \<^item> \<open>mkdir_err\<close>, \<open>pipe\<close>, \<open>rename_err\<close>, \<open>unlink_err\<close>: failures of \<open>ensureDirSync\<close>,
    of the stream pipeline, of \<open>renameSync\<close> and of \<open>unlinkSync\<close>.
\<close>

record fetcher =
  cookie :: "string option"
  url_host :: "string \<Rightarrow> string option"
  net :: "nat \<Rightarrow> request \<Rightarrow> error + response"
  net_follow :: "nat \<Rightarrow> request \<Rightarrow> error + response"
  read_err :: "nat \<Rightarrow> error option"
  mkdir_err :: "nat \<Rightarrow> string \<Rightarrow> error option"
  pipe :: "nat \<Rightarrow> string \<Rightarrow> pipe_outcome"
  rename_err :: "nat \<Rightarrow> string \<Rightarrow> string \<Rightarrow> error option"
  unlink_err :: "nat \<Rightarrow> string \<Rightarrow> error option"

definition USER_AGENT :: string where
  "USER_AGENT = ''Mozilla/5.0 (Windows NT 10.0; Win64; x64) AppleWebKit/537.36 (KHTML, like Gecko) Chrome/119.0.0.0 Safari/537.36 Edg/119.0.0.0''"

text \<open>\<open>new Request(url, { method })\<close>\<close>

definition new_Request :: "fetcher \<Rightarrow> string \<Rightarrow> http_method \<Rightarrow> error + request" where
  "new_Request F url m =
     (case url_host F url of
        None \<Rightarrow> Inl (OtherError ''Invalid URL'')
      | Some h \<Rightarrow> Inr \<lparr>req_url = url, req_method = m, req_headers = []\<rparr>)"

text \<open>\<open>headers.set(name, value)\<close>\<close>

definition headers_set :: "string \<Rightarrow> string \<Rightarrow> (string \<times> string) list \<Rightarrow> (string \<times> string) list" where
  "headers_set k v hs = filter (\<lambda>kv. fst kv \<noteq> k) hs @ [(k, v)]"

definition setHeaders :: "fetcher \<Rightarrow> request \<Rightarrow> bool \<Rightarrow> request" where
  "setHeaders F request setCookie =
     (let r1 = request\<lparr>req_headers := headers_set ''User-Agent'' USER_AGENT (req_headers request)\<rparr>
      in case truthy (cookie F) of
           Some c \<Rightarrow>
             if setCookie then r1\<lparr>req_headers := headers_set ''Cookie'' c (req_headers r1)\<rparr>
             else r1
         | None \<Rightarrow> r1)"

subsection \<open>Following redirects by hand\<close>

text \<open>
  \<open>#fetchWithRedirect(url, method, signal, useCookie = true)\<close>.  A chain of redirects
  need not end, so the recursion is bounded by fuel: the outcome \<open>None\<close> says the fuel
  ran out.  The first component lists the requests handed to \<open>fetch\<close>, in order.
\<close>

fun fetchWithRedirect ::
  "nat \<Rightarrow> fetcher \<Rightarrow> nat \<Rightarrow> string \<Rightarrow> http_method \<Rightarrow> bool \<Rightarrow> request list \<times> (error + response) option"
where
  "fetchWithRedirect 0 F rt url m useCookie = ([], None)"
| "fetchWithRedirect (Suc n) F rt url m useCookie =
     (case new_Request F url m of
        Inl e \<Rightarrow> ([], Some (Inl e))
      | Inr request0 \<Rightarrow>
          (let request = setHeaders F request0 useCookie in
           case net F rt request of
             Inl e \<Rightarrow> ([request], Some (Inl e))
           | Inr res \<Rightarrow>
               if 300 \<le> status res \<and> status res < 400 then
                 (case truthy (resp_location res) of
                    Some toURL \<Rightarrow>
                      (case url_host F toURL of
                         None \<Rightarrow> ([request], Some (Inl (OtherError ''Invalid URL'')))
                       | Some toHost \<Rightarrow>
                           (let redirectWithCookie = (url_host F url = Some toHost);
                                (reqs, r) = fetchWithRedirect n F rt toURL m redirectWithCookie
                            in (request # reqs, r)))
                  | None \<Rightarrow> ([request, request], Some (net_follow F rt request)))
               else ([request], Some (Inr res))))"

subsection \<open>Fetching a page\<close>

record fetch_args =
  fa_url :: string
  fa_maxRetries :: nat
  fa_retryInterval :: nat

datatype fetch_event = Sent request | Slept nat

text \<open>\<open>rt > 0 ? ` (retried ${rt} times)` : ''\<close>\<close>

definition retriedMsg :: "nat \<Rightarrow> string" where
  "retriedMsg rt = (if rt > 0 then '' (retried '' @ show_nat rt @ '' times)'' else [])"

text \<open>
  Modelled from the spec: \<open>sleepBeforeExecute(fn, ms)\<close> of \<open>utils/Misc.ts\<close>, which is not
  among the sources.  The spec's "fixed delay of \<open>retryIntervalMs\<close> between attempts":
  it waits \<open>ms\<close> milliseconds (the event \<open>Slept ms\<close>) and then returns what \<open>fn\<close> returns.
\<close>

definition sleepBeforeExecute ::
  "(fetch_event list \<times> 'a) \<Rightarrow> nat \<Rightarrow> fetch_event list \<times> 'a" where
  "sleepBeforeExecute r ms = (Slept ms # fst r, snd r)"

text \<open>
  \<open>fetchHTML(args, rt = 0)\<close>: the request is made inside the \<open>try\<close> block, so every
  error of the attempt reaches the \<open>catch\<close>.  The status of the response is not
  inspected.
\<close>

function fetchHTML ::
  "nat \<Rightarrow> fetcher \<Rightarrow> fetch_args \<Rightarrow> nat \<Rightarrow> fetch_event list \<times> (error + string \<times> string) option"
where
  "fetchHTML n F args rt =
     (let (reqs, r) = fetchWithRedirect n F rt (fa_url args) GET True;
          attempt =
            (case r of
               None \<Rightarrow> None
             | Some (Inl e) \<Rightarrow> Some (Inl e)
             | Some (Inr res) \<Rightarrow>
                 (case read_err F rt of
                    Some e \<Rightarrow> Some (Inl e)
                  | None \<Rightarrow>
                      Some (Inr (case resp_body res of None \<Rightarrow> [] | Some b \<Rightarrow> b, resp_url res))))
      in case attempt of
           None \<Rightarrow> (map Sent reqs, None)
         | Some (Inr page) \<Rightarrow> (map Sent reqs, Some (Inr page))
         | Some (Inl error) \<Rightarrow>
             if isErrorNonContinuable error then (map Sent reqs, Some (Inl error))
             else if rt < fa_maxRetries args then
               (let (evs, res) = sleepBeforeExecute (fetchHTML n F args (Suc rt)) (fa_retryInterval args)
                in (map Sent reqs @ evs, res))
             else
               (map Sent reqs,
                Some (Inl (FetcherError (errMsg error @ retriedMsg rt) (fa_url args) False))))"
  by pat_completeness auto
termination
  by (relation "measure (\<lambda>(n, F, args, rt). fa_maxRetries args - rt)") auto

declare fetchHTML.simps [simp del]

subsection \<open>Downloading an attachment\<close>

record DownloadAttachmentParams =
  src :: string
  dest :: string
  maxRetries :: nat
  retryInterval :: nat

text \<open>
  The files the fetcher touches: a path holds a byte string or nothing.  The
  destination passed by the downloader is already resolved, so \<open>path.resolve(dest)\<close> is
  \<open>dest\<close>, and \<open>path.resolve(destDir, `${destFilename}.part`)\<close> is \<open>dest\<close> followed by
  \<open>.part\<close>.
\<close>

type_synonym files = "string \<Rightarrow> string option"

definition tmpFilePath :: "string \<Rightarrow> string" where
  "tmpFilePath destFilePath = destFilePath @ ''.part''"

text \<open>
  \<open>#assertResponseOK(response, originURL)\<close> with \<open>requireBody\<close> left at \<open>true\<close>; it hands
  back the body it found.  The response is never \<open>null\<close> where it is called.
\<close>

definition assertResponseOK :: "response \<Rightarrow> string \<Rightarrow> error + string" where
  "assertResponseOK res originURL =
     (if \<not> ok res then
        Inl (FetcherError (show_nat (status res) @ '' - '' @ statusText res) originURL False)
      else
        (case resp_body res of
           None \<Rightarrow> Inl (FetcherError ''Empty response body'' originURL False)
         | Some body \<Rightarrow> Inr body))"

text \<open>
  \<open>#cleanupDownload\<close>: unlink the temporary file if it exists; an error of the unlink
  is caught and logged, and the file stays.
\<close>

definition cleanupDownload :: "fetcher \<Rightarrow> nat \<Rightarrow> string \<Rightarrow> files \<Rightarrow> files" where
  "cleanupDownload F rt tmp fs =
     (case fs tmp of
        None \<Rightarrow> fs
      | Some c \<Rightarrow>
          (case unlink_err F rt tmp of
             None \<Rightarrow> fs(tmp := None)
           | Some e \<Rightarrow> fs))"

text \<open>
  \<open>#commitDownload\<close>: \<open>lstatSync\<close> (for the log line) and \<open>renameSync\<close> inside \<open>try\<close>,
  the cleanup in \<open>finally\<close>.
\<close>

definition commitDownload ::
  "fetcher \<Rightarrow> nat \<Rightarrow> string \<Rightarrow> string \<Rightarrow> files \<Rightarrow> files \<times> (error + unit)" where
  "commitDownload F rt tmp destFilePath fs =
     (let (fs1, r) =
            (case fs tmp of
               None \<Rightarrow> (fs, Inl (OtherError ''ENOENT''))
             | Some c \<Rightarrow>
                 (case rename_err F rt tmp destFilePath of
                    Some e \<Rightarrow> (fs, Inl e)
                  | None \<Rightarrow> ((fs(destFilePath \<mapsto> c))(tmp := None), Inr ())))
      in (cleanupDownload F rt tmp fs1, r))"

text \<open>The outer \<open>try\<close> block of \<open>downloadAttachment\<close>, for the response \<open>res\<close>.\<close>

definition tryDownload ::
  "fetcher \<Rightarrow> DownloadAttachmentParams \<Rightarrow> nat \<Rightarrow> response \<Rightarrow> files \<Rightarrow> files \<times> (error + unit)" where
  "tryDownload F params rt res fs =
     (case assertResponseOK res (src params) of
        Inl e \<Rightarrow> (fs, Inl e)
      | Inr body \<Rightarrow>
          (let destFilePath = dest params;
               tmp = tmpFilePath destFilePath;
               (fs1, r) =
                 (case mkdir_err F rt destFilePath of
                    Some e \<Rightarrow> (fs, Inl e)
                  | None \<Rightarrow>
                      (case pipe F rt tmp of
                         PipeFailed e w \<Rightarrow>
                           (case w of None \<Rightarrow> fs | Some k \<Rightarrow> fs(tmp \<mapsto> take k body), Inl e)
                       | PipeOK \<Rightarrow> commitDownload F rt tmp destFilePath (fs(tmp \<mapsto> body))))
           in case r of
                Inr u \<Rightarrow> (fs1, Inr ())
              | Inl error \<Rightarrow> (cleanupDownload F rt tmp fs1, Inl error)))"

text \<open>
  \<open>downloadAttachment(params, rt = 0)\<close>.  The request object built first is not used.
  \<open>#fetchWithRedirect\<close> is awaited before the \<open>try\<close> block opens, so what it throws
  leaves the method as it is.
\<close>

function downloadAttachment ::
  "nat \<Rightarrow> fetcher \<Rightarrow> DownloadAttachmentParams \<Rightarrow> nat \<Rightarrow> files \<Rightarrow>
     fetch_event list \<times> files \<times> (error + unit) option"
where
  "downloadAttachment n F params rt fs =
     (case new_Request F (src params) GET of
        Inl e \<Rightarrow> ([], fs, Some (Inl e))
      | Inr request \<Rightarrow>
          (let (reqs, r) = fetchWithRedirect n F rt (src params) GET True in
           case r of
             None \<Rightarrow> (map Sent reqs, fs, None)
           | Some (Inl e) \<Rightarrow> (map Sent reqs, fs, Some (Inl e))
           | Some (Inr res) \<Rightarrow>
               (let (fs1, r1) = tryDownload F params rt res fs in
                case r1 of
                  Inr u \<Rightarrow> (map Sent reqs, fs1, Some (Inr ()))
                | Inl error \<Rightarrow>
                    if isErrorNonContinuable error then (map Sent reqs, fs1, Some (Inl error))
                    else if rt < maxRetries params then
                      (let (evs, res2) =
                             sleepBeforeExecute (downloadAttachment n F params (Suc rt) fs1)
                               (retryInterval params)
                       in (map Sent reqs @ evs, res2))
                    else
                      (map Sent reqs, fs1,
                       Some (Inl (FetcherError (errMsg error @ retriedMsg rt) (src params) False))))))"
  by pat_completeness auto
termination
  by (relation "measure (\<lambda>(n, F, params, rt, fs). maxRetries params - rt)") auto

declare downloadAttachment.simps [simp del]

section \<open>URL patterns (utils/URLHelper.ts)\<close>

definition is_digit :: "char \<Rightarrow> bool" where
  "is_digit c = (c \<in> set ''0123456789'')"

definition digit_val :: "char \<Rightarrow> nat" where
  "digit_val c = (case findIndex (\<lambda>d. d = c) ''0123456789'' of Some v \<Rightarrow> v | None \<Rightarrow> 0)"

text \<open>
  \<open>Number(matches[2])\<close> on a string of decimal digits.  The model is exact; JavaScript
  agrees with it below \<open>2^53\<close>.
\<close>

definition Number_of_digits :: "string \<Rightarrow> int" where
  "Number_of_digits ds = int (foldl (\<lambda>acc c. 10 * acc + digit_val c) 0 ds)"

text \<open>
  The regular expressions \<open>/\/forums\/(.+)\.(\d+)/g\<close> and \<open>/\/threads\/(.+)\.(\d+)/g\<close>,
  run by \<open>exec\<close> on a fresh regex object.  After the literal prefix, \<open>(.+)\<close> is greedy
  and does not cross a line terminator, so it ends at the last full stop of the line
  that is followed by a digit and preceded by at least one character; \<open>(\d+)\<close> takes
  the run of digits after it.  The leftmost start that matches wins.  Carriage return
  and line feed are the line terminators of an 8-bit string.
\<close>

definition is_line_terminator :: "char \<Rightarrow> bool" where
  "is_line_terminator c = (c = CHR 0x0A \<or> c = CHR 0x0D)"

fun last_dot_digits :: "string \<Rightarrow> (string \<times> string) option" where
  "last_dot_digits [] = None"
| "last_dot_digits (c # cs) =
     (case last_dot_digits cs of
        Some (slug, ds) \<Rightarrow> Some (c # slug, ds)
      | None \<Rightarrow>
          if c = CHR ''.'' \<and> takeWhile is_digit cs \<noteq> [] then Some ([], takeWhile is_digit cs)
          else None)"

definition match_slug_id :: "string \<Rightarrow> (string \<times> string) option" where
  "match_slug_id rest =
     (case last_dot_digits (takeWhile (\<lambda>c. \<not> is_line_terminator c) rest) of
        None \<Rightarrow> None
      | Some (slug, ds) \<Rightarrow> if slug = [] then None else Some (slug, ds))"

fun regex_exec :: "string \<Rightarrow> string \<Rightarrow> (string \<times> string) option" where
  "regex_exec pre [] = None"
| "regex_exec pre (c # cs) =
     (case (if prefix pre (c # cs) then match_slug_id (drop (length pre) (c # cs)) else None) of
        Some m \<Rightarrow> Some m
      | None \<Rightarrow> regex_exec pre cs)"

text \<open>\<open>parseForumURL\<close> and \<open>parseThreadURL\<close>: the pair is \<open>{slug, id}\<close>.\<close>

definition parseForumURL :: "string \<Rightarrow> (string \<times> int) option" where
  "parseForumURL url =
     (if url = [] then None
      else case regex_exec ''/forums/'' url of
             Some (slug, ds) \<Rightarrow> Some (slug, Number_of_digits ds)
           | None \<Rightarrow> None)"

definition parseThreadURL :: "string \<Rightarrow> (string \<times> int) option" where
  "parseThreadURL url =
     (if url = [] then None
      else case regex_exec ''/threads/'' url of
             Some (slug, ds) \<Rightarrow> Some (slug, Number_of_digits ds)
           | None \<Rightarrow> None)"

datatype DownloadTargetType = TargetThread | TargetForum | TargetUnknown

text \<open>
  \<open>getTargetTypeByURL\<close>; \<open>href\<close> is \<open>new URL(url).toString()\<close>, \<open>None\<close> when the
  constructor throws.
\<close>

definition getTargetTypeByURL :: "(string \<Rightarrow> string option) \<Rightarrow> string \<Rightarrow> error + DownloadTargetType" where
  "getTargetTypeByURL href url =
     (case href url of
        None \<Rightarrow> Inl (OtherError ''Invalid URL'')
      | Some u \<Rightarrow>
          (case parseForumURL u of
             Some f \<Rightarrow> Inr TargetForum
           | None \<Rightarrow>
               (case parseThreadURL u of
                  Some t \<Rightarrow> Inr TargetThread
                | None \<Rightarrow> Inr TargetUnknown)))"

section \<open>Entities and configuration\<close>

record ThreadMessageAttachment =
  att_id :: int
  att_index :: nat
  att_url :: string
  att_filename :: "string option"

record ThreadMessage =
  msg_id :: int
  msg_index :: string
  msg_author :: "string option"
  msg_publishedAt :: "string option"
  msg_body :: "string option"
  msg_attachments :: "ThreadMessageAttachment list"

record Breadcrumb =
  crumb_url :: string
  crumb_title :: string

record ThreadPage =
  tp_id :: int
  tp_url :: string
  tp_title :: string
  tp_breadcrumbs :: "Breadcrumb list"
  tp_messages :: "ThreadMessage list"
  tp_currentPage :: nat
  tp_totalPages :: nat
  tp_nextURL :: "string option"

record ThreadLike =
  tl_url :: string
  tl_title :: string

record ForumLike =
  fl_url :: string
  fl_title :: string

record ForumPage =
  fp_id :: int
  fp_url :: string
  fp_title :: string
  fp_subforums :: "ForumLike list"
  fp_threads :: "ThreadLike list"
  fp_currentPage :: nat
  fp_totalPages :: nat
  fp_nextURL :: "string option"

record GenericPage =
  gp_forums :: "ForumLike list"

record DownloadStatus =
  threadID :: int
  status_url :: string
  messageID :: int

record DownloadThreadContext =
  continued :: bool
  continueFromMessageID :: "int option"

record DownloadStats =
  processedForumCount :: nat
  processedThreadCount :: nat
  processedMessageCount :: nat
  skippedExistingAttachmentCount :: nat
  downloadedAttachmentCount :: nat
  errorCount :: nat

datatype parentForumsAndSections = ParentsAll | ParentsImmediate | ParentsNone

record DownloaderConfig =
  outDir :: string
  dirStructure_site :: bool
  dirStructure_parentForumsAndSections :: parentForumsAndSections
  dirStructure_thread :: bool
  dirStructure_attachments :: bool
  request_maxRetries :: nat
  request_maxConcurrent :: nat
  request_minTime_page :: nat
  request_minTime_attachment :: nat
  overwrite :: bool
  config_continue :: bool
  targetURL :: string

section \<open>The downloader (XenForoDownloader.ts)\<close>

subsection \<open>Files, events and the world outside\<close>

text \<open>
  A file is the list of the pieces written to it: the bytes of a downloaded attachment
  (named by the URL they came from), the header of a transcript (title and URL of the
  thread page), one formatted message, or a status record written as JSON.
  \<open>writeFileSync\<close> and \<open>writeJSONSync\<close> replace the list, \<open>appendFileSync\<close> extends it.
  The text that \<open>MessageTemplate.format\<close> and \<open>ThreadHeaderTemplate.format\<close> produce is
  not spelled out.
\<close>

datatype chunk =
    Bytes string
  | HeaderChunk string string
  | MessageChunk ThreadMessage
  | JsonChunk DownloadStatus

text \<open>
  What the run does, in order: the page fetches, header requests and attachment
  downloads handed to the fetcher, the transcript appends, the status records written,
  the errors logged, and the debug line \<open>Parsed thread page\<close> with the page as it
  stands at that point.
\<close>

datatype event =
    FetchPage string
  | HeadRequest string
  | AttachmentRequest string string
  | ParsedThreadPage ThreadPage
  | SaveMessage string int
  | WriteStatus string DownloadStatus
  | LogError error
  | LogWarn error

datatype fs_op =
    EnsureDir string
  | WriteFile string
  | AppendFile string
  | WriteJSON string
  | ReadJSON string

text \<open>
  Everything the downloader asks of its libraries and of the outside:
  \<^item> \<open>sanitizeFilename\<close>, \<open>path_resolve\<close>, \<open>path_sep\<close>: the packages \<open>sanitize-filename\<close>
    and \<open>path\<close>;
  \<^item> \<open>url_href\<close>: \<open>new URL(url).toString()\<close>, \<open>None\<close> when the constructor throws;
  \<^item> \<open>fetchPage\<close>: what \<open>fetcher.fetchHTML\<close>, scheduled on the page limiter, resolves to
    (the HTML) or rejects with;
  \<^item> \<open>parseThreadPage\<close>, \<open>parseForumPage\<close>, \<open>parseGenericPage\<close>: the parser, which
    throws when it cannot find an id, a URL or a title;
  \<^item> \<open>fetchFilenameByHeaders\<close>: the outcome of the header request for an attachment;
  \<^item> \<open>downloadAttachmentTo\<close>: what \<open>fetcher.downloadAttachment\<close>, scheduled on the
    attachment limiter, rejects with for a source URL and a destination path (\<open>None\<close>:
    it resolved, and the destination holds the download);
  \<^item> \<open>fs_err\<close>: the error a file-system call throws, if any.
\<close>

record world =
  sanitizeFilename :: "string \<Rightarrow> string"
  path_resolve :: "string \<Rightarrow> string \<Rightarrow> string"
  path_sep :: string
  url_href :: "string \<Rightarrow> string option"
  fetchPage :: "string \<Rightarrow> error + string"
  parseThreadPage :: "string \<Rightarrow> string \<Rightarrow> error + ThreadPage"
  parseForumPage :: "string \<Rightarrow> string \<Rightarrow> error + ForumPage"
  parseGenericPage :: "string \<Rightarrow> string \<Rightarrow> error + GenericPage"
  fetchFilenameByHeaders :: "string \<Rightarrow> error + string option"
  downloadAttachmentTo :: "string \<Rightarrow> string \<Rightarrow> error option"
  fs_err :: "fs_op \<Rightarrow> error option"

record state =
  stats :: DownloadStats
  files :: "string \<Rightarrow> chunk list option"
  trace :: "event list"

definition emit :: "event \<Rightarrow> state \<Rightarrow> state" where
  "emit e s = s\<lparr>trace := trace s @ [e]\<rparr>"

text \<open>
  \<open>m instanceof Error && m.message === 'LimiterStopOnError'\<close>: the error with which
  the limiters drop their waiting jobs once \<open>start\<close> has stopped them.
\<close>

fun isLimiterStopOnError :: "error \<Rightarrow> bool" where
  "isLimiterStopOnError (ThrownValue v) = False"
| "isLimiterStopOnError e = (errMsg e = ''LimiterStopOnError'')"

text \<open>\<open>log(level, ..., error)\<close> returns without logging when it is handed that error.\<close>

definition log_error :: "error \<Rightarrow> state \<Rightarrow> state" where
  "log_error e s = (if isLimiterStopOnError e then s else emit (LogError e) s)"

definition log_warn :: "error \<Rightarrow> state \<Rightarrow> state" where
  "log_warn e s = (if isLimiterStopOnError e then s else emit (LogWarn e) s)"

definition updateStatsOnError :: "error \<Rightarrow> state \<Rightarrow> state" where
  "updateStatsOnError e s =
     (if isLimiterStopOnError e then s
      else s\<lparr>stats := (stats s)\<lparr>errorCount := errorCount (stats s) + 1\<rparr>\<rparr>)"

subsection \<open>Paths and file names\<close>

text \<open>\<open>pathParts.join(path.sep)\<close>\<close>

fun join :: "string \<Rightarrow> string list \<Rightarrow> string" where
  "join sep [] = []"
| "join sep [x] = x"
| "join sep (x # y # ys) = x @ sep @ join sep (y # ys)"

text \<open>The local function \<open>__pushPathPart(title, id?)\<close>: the part it pushes.\<close>

definition pushPathPart :: "world \<Rightarrow> string \<Rightarrow> int option \<Rightarrow> string" where
  "pushPathPart W title ident =
     (case ident of
        None \<Rightarrow> sanitizeFilename W title
      | Some i \<Rightarrow>
          if i \<noteq> 0 then sanitizeFilename W (title @ ''.'' @ show_int i)
          else sanitizeFilename W title)"

text \<open>
  What one ancestor crumb contributes: nothing without a title, else its title with
  \<open>URLHelper.parseForumURL(crumb.url)?.id\<close>.
\<close>

definition crumbParts :: "world \<Rightarrow> Breadcrumb \<Rightarrow> string list" where
  "crumbParts W crumb =
     (if crumb_title crumb \<noteq> [] then
        [pushPathPart W (crumb_title crumb) (map_option snd (parseForumURL (crumb_url crumb)))]
      else [])"

definition getThreadSavePath :: "world \<Rightarrow> DownloaderConfig \<Rightarrow> ThreadPage \<Rightarrow> string" where
  "getThreadSavePath W cfg tp =
     (let crumbs = tp_breadcrumbs tp;
          sitePart =
            (if dirStructure_site cfg then
               (case crumbs of
                  [] \<Rightarrow> []
                | c0 # cs \<Rightarrow> if crumb_title c0 \<noteq> [] then [pushPathPart W (crumb_title c0) None] else [])
             else []);
          forumParts =
            (if length crumbs > 1 then
               (case dirStructure_parentForumsAndSections cfg of
                  ParentsAll \<Rightarrow> concat (map (crumbParts W) (tl crumbs))
                | ParentsImmediate \<Rightarrow> crumbParts W (last crumbs)
                | ParentsNone \<Rightarrow> [])
             else []);
          threadPart =
            (if dirStructure_thread cfg \<and> tp_title tp \<noteq> [] then
               [pushPathPart W (tp_title tp) (Some (tp_id tp))]
             else [])
      in path_resolve W (outDir cfg) (join (path_sep W) (sitePart @ forumParts @ threadPart)))"

definition getMessageAttachmentFilename :: "world \<Rightarrow> ThreadMessageAttachment \<Rightarrow> string" where
  "getMessageAttachmentFilename W attachment =
     (case truthy (att_filename attachment) of
        Some name \<Rightarrow>
          sanitizeFilename W (''attach-'' @ show_int (att_id attachment) @ '' - '' @ name)
      | None \<Rightarrow>
          sanitizeFilename W
            (''attach-'' @ show_int (att_id attachment) @ ''-'' @ show_nat (att_index attachment)))"

definition getDownloadStatusFilePath :: "world \<Rightarrow> ThreadPage \<Rightarrow> string \<Rightarrow> string" where
  "getDownloadStatusFilePath W tp threadSavePath =
     path_resolve W threadSavePath (sanitizeFilename W (''.dl-status-'' @ show_int (tp_id tp)))"

subsection \<open>One attachment\<close>

text \<open>
  \<open>#downloadMessageAttachment\<close>.  The result is the exception that leaves the method,
  if any, with the state it leaves behind.
\<close>

definition downloadMessageAttachment ::
  "world \<Rightarrow> DownloaderConfig \<Rightarrow> ThreadMessageAttachment \<Rightarrow> string \<Rightarrow> state \<Rightarrow> (error + unit) \<times> state" where
  "downloadMessageAttachment W cfg attachment destDir s =
     (let filename = getMessageAttachmentFilename W attachment;
          destPath = path_resolve W destDir filename
      in if files s destPath \<noteq> None \<and> \<not> overwrite cfg then
           (Inr (),
            s\<lparr>stats := (stats s)\<lparr>skippedExistingAttachmentCount :=
                 skippedExistingAttachmentCount (stats s) + 1\<rparr>\<rparr>)
         else
           (let s1 = emit (AttachmentRequest (att_url attachment) destPath) s
            in case downloadAttachmentTo W (att_url attachment) destPath of
                 None \<Rightarrow>
                   (Inr (),
                    s1\<lparr>files := (files s1)(destPath \<mapsto> [Bytes (att_url attachment)]),
                       stats := (stats s1)\<lparr>downloadedAttachmentCount :=
                         downloadedAttachmentCount (stats s1) + 1\<rparr>\<rparr>)
               | Some error \<Rightarrow>
                   if isErrorNonContinuable error then (Inl error, s1)
                   else (Inr (), updateStatsOnError error (log_error error s1))))"

text \<open>
  \<open>Promise.all(message.attachments.map(...))\<close>: the attachments of one message, taken
  in list order; the first exception that leaves one of them leaves the whole.
\<close>

fun downloadMessageAttachments ::
  "world \<Rightarrow> DownloaderConfig \<Rightarrow> ThreadMessageAttachment list \<Rightarrow> string \<Rightarrow> state \<Rightarrow> (error + unit) \<times> state" where
  "downloadMessageAttachments W cfg [] destDir s = (Inr (), s)"
| "downloadMessageAttachments W cfg (a # as) destDir s =
     (case downloadMessageAttachment W cfg a destDir s of
        (Inl e, s1) \<Rightarrow> (Inl e, s1)
      | (Inr u, s1) \<Rightarrow> downloadMessageAttachments W cfg as destDir s1)"

subsection \<open>One thread page\<close>

text \<open>
  Lines 192 to 201 of \<open>#downloadThread\<close>: the messages left on the page after
  \<open>splice(0, i + 1)\<close>.  A number is truthy when it is not zero.
\<close>

definition dropContinued :: "DownloadThreadContext option \<Rightarrow> ThreadMessage list \<Rightarrow> ThreadMessage list" where
  "dropContinued ctx msgs =
     (case ctx of
        None \<Rightarrow> msgs
      | Some c \<Rightarrow>
          (case continueFromMessageID c of
             None \<Rightarrow> msgs
           | Some m \<Rightarrow>
               if m = 0 then msgs
               else
                 (case findIndex (\<lambda>msg. msg_id msg = m) msgs of
                    None \<Rightarrow> msgs
                  | Some i \<Rightarrow> drop (i + 1) msgs)))"

text \<open>
  \<open>__setAttachmentFilename\<close> for the attachments without a file name, in page order:
  a name found in the headers is stored in the attachment, a failure is logged as a
  warning unless it must unwind the crawl.
\<close>

fun setAttachmentFilenames ::
  "world \<Rightarrow> ThreadMessageAttachment list \<Rightarrow> state \<Rightarrow> (error + ThreadMessageAttachment list) \<times> state" where
  "setAttachmentFilenames W [] s = (Inr [], s)"
| "setAttachmentFilenames W (a # as) s =
     (case truthy (att_filename a) of
        Some name \<Rightarrow>
          (case setAttachmentFilenames W as s of
             (Inl e, s1) \<Rightarrow> (Inl e, s1)
           | (Inr as', s1) \<Rightarrow> (Inr (a # as'), s1))
      | None \<Rightarrow>
          (let s1 = emit (HeadRequest (att_url a)) s
           in case fetchFilenameByHeaders W (att_url a) of
                Inl error \<Rightarrow>
                  if isErrorNonContinuable error then (Inl error, s1)
                  else
                    (case setAttachmentFilenames W as (log_warn error s1) of
                       (Inl e, s2) \<Rightarrow> (Inl e, s2)
                     | (Inr as', s2) \<Rightarrow> (Inr (a # as'), s2))
              | Inr name \<Rightarrow>
                  (case setAttachmentFilenames W as s1 of
                     (Inl e, s2) \<Rightarrow> (Inl e, s2)
                   | (Inr as', s2) \<Rightarrow> (Inr (a\<lparr>att_filename := truthy name\<rparr> # as'), s2))))"

fun setMessageFilenames ::
  "world \<Rightarrow> ThreadMessage list \<Rightarrow> state \<Rightarrow> (error + ThreadMessage list) \<times> state" where
  "setMessageFilenames W [] s = (Inr [], s)"
| "setMessageFilenames W (m # ms) s =
     (case setAttachmentFilenames W (msg_attachments m) s of
        (Inl e, s1) \<Rightarrow> (Inl e, s1)
      | (Inr as', s1) \<Rightarrow>
          (case setMessageFilenames W ms s1 of
             (Inl e, s2) \<Rightarrow> (Inl e, s2)
           | (Inr ms', s2) \<Rightarrow> (Inr (m\<lparr>msg_attachments := as'\<rparr> # ms'), s2)))"

text \<open>\<open>#createMessageFile(threadPage, destDir, overwrite)\<close>\<close>

definition createMessageFile ::
  "world \<Rightarrow> ThreadPage \<Rightarrow> string \<Rightarrow> bool \<Rightarrow> state \<Rightarrow> (error + string) \<times> state" where
  "createMessageFile W tp destDir overwriteFile s =
     (let filename = sanitizeFilename W
            (''messages-'' @ show_int (tp_id tp) @ ''-p'' @ show_nat (tp_currentPage tp) @ '' - ''
               @ tp_title tp @ ''.txt'');
          destPath = path_resolve W destDir filename
      in if \<not> overwriteFile \<and> files s destPath \<noteq> None then (Inr destPath, s)
         else
           (case fs_err W (WriteFile destPath) of
              Some e \<Rightarrow> (Inl e, s)
            | None \<Rightarrow>
                (Inr destPath,
                 s\<lparr>files := (files s)(destPath \<mapsto> [HeaderChunk (tp_title tp) (tp_url tp)])\<rparr>)))"

text \<open>
  \<open>#saveMessage(message, file)\<close>: the message is formatted with the final file names
  of its attachments and appended to the transcript.
\<close>

definition saveMessage :: "world \<Rightarrow> ThreadMessage \<Rightarrow> string \<Rightarrow> state \<Rightarrow> (error + unit) \<times> state" where
  "saveMessage W message file s =
     (let attachments =
            map (\<lambda>a. a\<lparr>att_filename := Some (getMessageAttachmentFilename W a)\<rparr>)
              (msg_attachments message);
          messageOut = MessageChunk (message\<lparr>msg_attachments := attachments\<rparr>)
      in case fs_err W (AppendFile file) of
           Some e \<Rightarrow> (Inl e, s)
         | None \<Rightarrow>
             (Inr (),
              emit (SaveMessage file (msg_id message))
                (s\<lparr>files := (files s)(file \<mapsto>
                     (case files s file of None \<Rightarrow> [] | Some cs \<Rightarrow> cs) @ [messageOut])\<rparr>)))"

text \<open>
  \<open>#saveDownloadStatus(thread, lastSavedMessage, threadSavePath)\<close>: an error of the
  write is logged and goes no further.
\<close>

definition saveDownloadStatus :: "world \<Rightarrow> ThreadPage \<Rightarrow> ThreadMessage \<Rightarrow> string \<Rightarrow> state \<Rightarrow> state" where
  "saveDownloadStatus W tp lastSavedMessage threadSavePath s =
     (let st = \<lparr>threadID = tp_id tp, status_url = tp_url tp, messageID = msg_id lastSavedMessage\<rparr>;
          file = getDownloadStatusFilePath W tp threadSavePath
      in case fs_err W (WriteJSON file) of
           Some e \<Rightarrow> log_error e s
         | None \<Rightarrow> emit (WriteStatus file st) (s\<lparr>files := (files s)(file \<mapsto> [JsonChunk st])\<rparr>))"

text \<open>
  \<open>#checkPreviousDownload(thread, threadSavePath)\<close>.  A file that is not one JSON
  record makes \<open>readJSONSync\<close> throw; a field that is missing is falsy like \<open>0\<close> and
  the empty string.
\<close>

definition checkPreviousDownload ::
  "world \<Rightarrow> ThreadPage \<Rightarrow> string \<Rightarrow> state \<Rightarrow> error + DownloadStatus option" where
  "checkPreviousDownload W tp threadSavePath s =
     (let file = getDownloadStatusFilePath W tp threadSavePath
      in case files s file of
           None \<Rightarrow> Inr None
         | Some content \<Rightarrow>
             (case fs_err W (ReadJSON file) of
                Some e \<Rightarrow> Inl e
              | None \<Rightarrow>
                  (case content of
                     [JsonChunk json] \<Rightarrow>
                       if threadID json = 0 \<or> status_url json = [] \<or> messageID json = 0 then
                         Inl (OtherError (''Failed to read previous download status from '' @
                           [CHR 0x22] @ file @ [CHR 0x22] @ '': invalid format''))
                       else Inr (Some json)
                   | _ \<Rightarrow> Inl (OtherError ''Unexpected token in JSON''))))"

text \<open>The \<open>for\<close> loop over the messages of the page, lines 248 to 266.\<close>

fun processMessages ::
  "world \<Rightarrow> DownloaderConfig \<Rightarrow> ThreadPage \<Rightarrow> string \<Rightarrow> string \<Rightarrow> string \<Rightarrow> ThreadMessage list \<Rightarrow>
     state \<Rightarrow> (error + unit) \<times> state" where
  "processMessages W cfg tp threadSavePath attachmentSavePath messageFile [] s = (Inr (), s)"
| "processMessages W cfg tp threadSavePath attachmentSavePath messageFile (message # rest) s =
     (let hasAttachments = (msg_attachments message \<noteq> []);
          (r1, s1) =
            (if hasAttachments then
               (case fs_err W (EnsureDir attachmentSavePath) of
                  Some e \<Rightarrow> (Inl e, s)
                | None \<Rightarrow>
                    downloadMessageAttachments W cfg (msg_attachments message) attachmentSavePath s)
             else (Inr (), s))
      in case r1 of
           Inl e \<Rightarrow> (Inl e, s1)
         | Inr u \<Rightarrow>
             (case saveMessage W message messageFile s1 of
                (Inl e, s2) \<Rightarrow> (Inl e, s2)
              | (Inr u2, s2) \<Rightarrow>
                  (let s3 = s2\<lparr>stats := (stats s2)\<lparr>processedMessageCount :=
                              processedMessageCount (stats s2) + 1\<rparr>\<rparr>;
                       s4 = saveDownloadStatus W tp message threadSavePath s3
                   in processMessages W cfg tp threadSavePath attachmentSavePath messageFile rest s4)))"

text \<open>
  \<open>context?.continued && context?.continueFromMessageID\<close>, as a truth value.
\<close>

definition continuedFromMessage :: "DownloadThreadContext option \<Rightarrow> bool" where
  "continuedFromMessage ctx =
     (case ctx of
        None \<Rightarrow> False
      | Some c \<Rightarrow>
          continued c \<and> (case continueFromMessageID c of None \<Rightarrow> False | Some m \<Rightarrow> m \<noteq> 0))"

text \<open>
  Lines 192 to 266 of \<open>#downloadThread\<close>: what the \<open>try\<close> block does with a parsed
  page once the check for a previous download is behind it.
\<close>

definition processThreadPage ::
  "world \<Rightarrow> DownloaderConfig \<Rightarrow> DownloadThreadContext option \<Rightarrow> ThreadPage \<Rightarrow> state \<Rightarrow>
     (error + unit) \<times> state" where
  "processThreadPage W cfg ctx threadPage s =
     (let tp1 = threadPage\<lparr>tp_messages := dropContinued ctx (tp_messages threadPage)\<rparr>
      in case setMessageFilenames W (tp_messages tp1) s of
           (Inl e, s1) \<Rightarrow> (Inl e, s1)
         | (Inr msgs, s1) \<Rightarrow>
             (let tp2 = tp1\<lparr>tp_messages := msgs\<rparr>;
                  s2 = emit (ParsedThreadPage tp2) s1;
                  threadSavePath = getThreadSavePath W cfg tp2;
                  attachmentSavePath =
                    (if dirStructure_attachments cfg then path_resolve W threadSavePath ''attachments''
                     else threadSavePath)
              in case fs_err W (EnsureDir threadSavePath) of
                   Some e \<Rightarrow> (Inl e, s2)
                 | None \<Rightarrow>
                     (case createMessageFile W tp2 threadSavePath (\<not> continuedFromMessage ctx) s2 of
                        (Inl e, s3) \<Rightarrow> (Inl e, s3)
                      | (Inr messageFile, s3) \<Rightarrow>
                          processMessages W cfg tp2 threadSavePath attachmentSavePath messageFile
                            (tp_messages tp2) s3)))"

subsection \<open>A thread, page after page\<close>

text \<open>\<open>context?.continued\<close>, as a truth value.\<close>

definition contextContinued :: "DownloadThreadContext option \<Rightarrow> bool" where
  "contextContinued ctx = (case ctx of None \<Rightarrow> False | Some c \<Rightarrow> continued c)"

text \<open>
  Lines 174 to 190: the status record to continue from, if the check is made and finds
  one.  An error of the check is logged and the \<open>continue\<close> flag is ignored.
\<close>

definition previousDownload ::
  "world \<Rightarrow> DownloaderConfig \<Rightarrow> DownloadThreadContext option \<Rightarrow> ThreadPage \<Rightarrow> state \<Rightarrow>
     DownloadStatus option \<times> state" where
  "previousDownload W cfg ctx threadPage s =
     (if \<not> contextContinued ctx \<and> config_continue cfg then
        (case checkPreviousDownload W threadPage (getThreadSavePath W cfg threadPage) s of
           Inr None \<Rightarrow> (None, s)
         | Inr (Some prevDownload) \<Rightarrow> (Some prevDownload, s)
         | Inl e \<Rightarrow> (None, log_error e s))
      else (None, s))"

text \<open>
  The \<open>catch\<close> block shared by the three handlers: an error that must unwind the crawl
  is thrown again, any other is logged and counted.
\<close>

definition catchContinuable :: "error \<Rightarrow> state \<Rightarrow> error + state" where
  "catchContinuable e s =
     (if isErrorNonContinuable e then Inl e
      else Inr (updateStatsOnError e (log_error e s)))"

text \<open>
  How the \<open>try\<close>/\<open>catch\<close> statement of \<open>#downloadThread\<close> ends: by returning the
  call that continues from a previous download, by throwing, or by falling through
  with \<open>threadPage\<close> set or still \<open>null\<close>.
\<close>

datatype thread_try = Redirect DownloadStatus | Rethrow error | Settled "ThreadPage option"

definition threadTry ::
  "world \<Rightarrow> DownloaderConfig \<Rightarrow> string \<Rightarrow> DownloadThreadContext option \<Rightarrow> state \<Rightarrow> thread_try \<times> state" where
  "threadTry W cfg u ctx s =
     (let s0 = emit (FetchPage u) s
      in case fetchPage W u of
           Inl e \<Rightarrow>
             (case catchContinuable e s0 of
                Inl e' \<Rightarrow> (Rethrow e', s0)
              | Inr s1 \<Rightarrow> (Settled None, s1))
         | Inr html \<Rightarrow>
             (case parseThreadPage W html u of
                Inl e \<Rightarrow>
                  (case catchContinuable e s0 of
                     Inl e' \<Rightarrow> (Rethrow e', s0)
                   | Inr s1 \<Rightarrow> (Settled None, s1))
              | Inr threadPage \<Rightarrow>
                  (case previousDownload W cfg ctx threadPage s0 of
                     (Some prevDownload, s1) \<Rightarrow> (Redirect prevDownload, s1)
                   | (None, s1) \<Rightarrow>
                       (case processThreadPage W cfg ctx threadPage s1 of
                          (Inr u1, s2) \<Rightarrow> (Settled (Some threadPage), s2)
                        | (Inl e, s2) \<Rightarrow>
                            (case catchContinuable e s2 of
                               Inl e' \<Rightarrow> (Rethrow e', s2)
                             | Inr s3 \<Rightarrow> (Settled (Some threadPage), s3))))))"

text \<open>
  \<open>#downloadThread(url, stats, signal, context)\<close>.  The chain of next pages need not
  end, so the recursion is bounded by fuel, one unit for each page fetched; the result
  \<open>None\<close> says the fuel ran out before the method returned.
\<close>

fun downloadThread ::
  "nat \<Rightarrow> world \<Rightarrow> DownloaderConfig \<Rightarrow> string \<Rightarrow> DownloadThreadContext option \<Rightarrow> state \<Rightarrow>
     (error + unit) option \<times> state" where
  "downloadThread 0 W cfg u ctx s = (None, s)"
| "downloadThread (Suc n) W cfg u ctx s =
     (case threadTry W cfg u ctx s of
        (Redirect prevDownload, s1) \<Rightarrow>
          downloadThread n W cfg (status_url prevDownload)
            (Some \<lparr>continued = True, continueFromMessageID = Some (messageID prevDownload)\<rparr>) s1
      | (Rethrow e, s1) \<Rightarrow> (Some (Inl e), s1)
      | (Settled None, s1) \<Rightarrow> (Some (Inr ()), s1)
      | (Settled (Some threadPage), s1) \<Rightarrow>
          (case truthy (tp_nextURL threadPage) of
             Some nextURL \<Rightarrow>
               downloadThread n W cfg nextURL
                 (if config_continue cfg then Some \<lparr>continued = True, continueFromMessageID = None\<rparr>
                  else None) s1
           | None \<Rightarrow>
               (Some (Inr ()),
                s1\<lparr>stats := (stats s1)\<lparr>processedThreadCount :=
                     processedThreadCount (stats s1) + 1\<rparr>\<rparr>)))"

subsection \<open>Forums, generic pages and the dispatcher\<close>

text \<open>
  \<open>#process\<close>, \<open>#downloadForum\<close> and \<open>#downloadGeneric\<close> call each other; \<open>processEach\<close>
  is the loop \<open>for (const x of list) await this.#process(x.url, ...)\<close> over the threads
  of a forum page or the forums of a generic page, \<open>downloadSubforums\<close> the loop over
  the subforums.  The fuel bounds the depth of the calls: a handler spends one unit on
  the page it fetches and passes the rest to everything it calls.
\<close>

function process ::
    "nat \<Rightarrow> world \<Rightarrow> DownloaderConfig \<Rightarrow> string \<Rightarrow> state \<Rightarrow> (error + unit) option \<times> state"
  and downloadForum ::
    "nat \<Rightarrow> world \<Rightarrow> DownloaderConfig \<Rightarrow> string \<Rightarrow> state \<Rightarrow> (error + unit) option \<times> state"
  and downloadGeneric ::
    "nat \<Rightarrow> world \<Rightarrow> DownloaderConfig \<Rightarrow> string \<Rightarrow> state \<Rightarrow> (error + unit) option \<times> state"
  and processEach ::
    "nat \<Rightarrow> world \<Rightarrow> DownloaderConfig \<Rightarrow> string list \<Rightarrow> state \<Rightarrow> (error + unit) option \<times> state"
  and downloadSubforums ::
    "nat \<Rightarrow> world \<Rightarrow> DownloaderConfig \<Rightarrow> string list \<Rightarrow> state \<Rightarrow> (error + unit) option \<times> state"
where
  "process n W cfg u s =
     (case getTargetTypeByURL (url_href W) u of
        Inl e \<Rightarrow> (Some (Inl e), s)
      | Inr TargetThread \<Rightarrow> downloadThread n W cfg u None s
      | Inr TargetForum \<Rightarrow> downloadForum n W cfg u s
      | Inr TargetUnknown \<Rightarrow> downloadGeneric n W cfg u s)"
| "downloadForum 0 W cfg u s = (None, s)"
| "downloadForum (Suc n) W cfg u s =
     (let s0 = emit (FetchPage u) s;
          (tried, forumPage, s1) =
            (case fetchPage W u of
               Inl e \<Rightarrow> (Some (Inl e), None, s0)
             | Inr html \<Rightarrow>
                 (case parseForumPage W html u of
                    Inl e \<Rightarrow> (Some (Inl e), None, s0)
                  | Inr fp \<Rightarrow>
                      (case processEach n W cfg (map tl_url (fp_threads fp)) s0 of
                         (r, s') \<Rightarrow> (r, Some fp, s'))))
      in case tried of
           None \<Rightarrow> (None, s1)
         | Some r \<Rightarrow>
             (case (case r of Inr u1 \<Rightarrow> Inr s1 | Inl e \<Rightarrow> catchContinuable e s1) of
                Inl e \<Rightarrow> (Some (Inl e), s1)
              | Inr s2 \<Rightarrow>
                  (case forumPage of
                     None \<Rightarrow> (Some (Inr ()), s2)
                   | Some fp \<Rightarrow>
                       (case truthy (fp_nextURL fp) of
                          Some nextURL \<Rightarrow> downloadForum n W cfg nextURL s2
                        | None \<Rightarrow>
                            (case downloadSubforums n W cfg (map fl_url (fp_subforums fp)) s2 of
                               (Some (Inr u2), s3) \<Rightarrow>
                                 (Some (Inr ()),
                                  s3\<lparr>stats := (stats s3)\<lparr>processedForumCount :=
                                       processedForumCount (stats s3) + 1\<rparr>\<rparr>)
                             | (r3, s3) \<Rightarrow> (r3, s3))))))"
| "downloadGeneric 0 W cfg u s = (None, s)"
| "downloadGeneric (Suc n) W cfg u s =
     (let s0 = emit (FetchPage u) s;
          (tried, s1) =
            (case fetchPage W u of
               Inl e \<Rightarrow> (Some (Inl e), s0)
             | Inr html \<Rightarrow>
                 (case parseGenericPage W html u of
                    Inl e \<Rightarrow> (Some (Inl e), s0)
                  | Inr page \<Rightarrow> processEach n W cfg (map fl_url (gp_forums page)) s0))
      in case tried of
           None \<Rightarrow> (None, s1)
         | Some (Inr u1) \<Rightarrow> (Some (Inr ()), s1)
         | Some (Inl e) \<Rightarrow>
             (case catchContinuable e s1 of
                Inl e' \<Rightarrow> (Some (Inl e'), s1)
              | Inr s2 \<Rightarrow> (Some (Inr ()), s2)))"
| "processEach n W cfg [] s = (Some (Inr ()), s)"
| "processEach n W cfg (u # us) s =
     (case process n W cfg u s of
        (Some (Inr u1), s1) \<Rightarrow> processEach n W cfg us s1
      | (r, s1) \<Rightarrow> (r, s1))"
| "downloadSubforums n W cfg [] s = (Some (Inr ()), s)"
| "downloadSubforums n W cfg (u # us) s =
     (case downloadForum n W cfg u s of
        (Some (Inr u1), s1) \<Rightarrow> downloadSubforums n W cfg us s1
      | (r, s1) \<Rightarrow> (r, s1))"
  by pat_completeness auto
termination
  by (relation "inv_image (less_than <*lex*> less_than <*lex*> less_than)
        (\<lambda>x. case x of
           Inl (Inl (n, W, cfg, u, s)) \<Rightarrow> (n, 1, 0)
         | Inl (Inr (n, W, cfg, u, s)) \<Rightarrow> (n, 0, 0)
         | Inr (Inl (n, W, cfg, u, s)) \<Rightarrow> (n, 0, 0)
         | Inr (Inr (Inl (n, W, cfg, us, s))) \<Rightarrow> (n, 2, length us)
         | Inr (Inr (Inr (n, W, cfg, us, s))) \<Rightarrow> (n, 2, length us))")
     auto

text \<open>
  \<open>start\<close>: the counters begin at zero; what \<open>#process\<close> throws is caught, and counted
  unless it is the cancellation.  The limiters it stops are not part of the model.
\<close>

definition initialStats :: DownloadStats where
  "initialStats = \<lparr>processedForumCount = 0, processedThreadCount = 0, processedMessageCount = 0,
     skippedExistingAttachmentCount = 0, downloadedAttachmentCount = 0, errorCount = 0\<rparr>"

definition start ::
  "nat \<Rightarrow> world \<Rightarrow> DownloaderConfig \<Rightarrow> (string \<Rightarrow> chunk list option) \<Rightarrow> state option" where
  "start n W cfg disk =
     (case process n W cfg (targetURL cfg) \<lparr>stats = initialStats, files = disk, trace = []\<rparr> of
        (None, s) \<Rightarrow> None
      | (Some (Inr u), s) \<Rightarrow> Some s
      | (Some (Inl e), s) \<Rightarrow>
          (case e of
             AbortError m \<Rightarrow> Some s
           | _ \<Rightarrow> Some (updateStatsOnError e (log_error e s))))"

section \<open>Reading a run\<close>

text \<open>The pauses among the events of the fetcher.\<close>

fun sleeps :: "fetch_event list \<Rightarrow> nat list" where
  "sleeps [] = []"
| "sleeps (Slept ms # evs) = ms # sleeps evs"
| "sleeps (Sent r # evs) = sleeps evs"

text \<open>
  From the events of the downloader: the ids of the messages appended to a transcript,
  the message ids of the status records written, and the message ids of the pages
  reported by the debug line, each in the order of the run.
\<close>

fun saved_ids :: "event list \<Rightarrow> int list" where
  "saved_ids [] = []"
| "saved_ids (SaveMessage file i # es) = i # saved_ids es"
| "saved_ids (e # es) = saved_ids es"

fun status_ids :: "event list \<Rightarrow> int list" where
  "status_ids [] = []"
| "status_ids (WriteStatus file d # es) = messageID d # status_ids es"
| "status_ids (e # es) = status_ids es"

fun page_ids :: "event list \<Rightarrow> int list" where
  "page_ids [] = []"
| "page_ids (ParsedThreadPage tp # es) = map msg_id (tp_messages tp) @ page_ids es"
| "page_ids (e # es) = page_ids es"


text \<open>
  \<open>markers_follow_appends prev es\<close>: in the events \<open>es\<close>, which come right after the event
  \<open>prev\<close> (if any), every status record written stands directly behind the transcript
  append of the message it names.
\<close>

fun markers_follow_appends :: "event option \<Rightarrow> event list \<Rightarrow> bool" where
  "markers_follow_appends prev [] = True"
| "markers_follow_appends prev (WriteStatus file d # es) =
     ((case prev of Some (SaveMessage f i) \<Rightarrow> i = messageID d | _ \<Rightarrow> False)
      \<and> markers_follow_appends (Some (WriteStatus file d)) es)"
| "markers_follow_appends prev (e # es) = markers_follow_appends (Some e) es"

text \<open>The events that are neither an append, nor a status record, nor a page report.\<close>

fun plain :: "event \<Rightarrow> bool" where
  "plain (SaveMessage file i) = False"
| "plain (WriteStatus file d) = False"
| "plain (ParsedThreadPage tp) = False"
| "plain e = True"





section \<open>Example inputs\<close>

subsection \<open>A thread of two pages\<close>

definition ex_message :: "int \<Rightarrow> ThreadMessage" where
  "ex_message i = \<lparr>msg_id = i, msg_index = ''#'', msg_author = Some ''ann'',
     msg_publishedAt = None, msg_body = Some ''hello'', msg_attachments = []\<rparr>"

definition ex_page1 :: ThreadPage where
  "ex_page1 = \<lparr>tp_id = 42, tp_url = ''p1'', tp_title = ''Hello'', tp_breadcrumbs = [],
     tp_messages = [ex_message 101, ex_message 102],
     tp_currentPage = 1, tp_totalPages = 2, tp_nextURL = Some ''p2''\<rparr>"

definition ex_page2 :: ThreadPage where
  "ex_page2 = \<lparr>tp_id = 42, tp_url = ''p2'', tp_title = ''Hello'', tp_breadcrumbs = [],
     tp_messages = [ex_message 103],
     tp_currentPage = 2, tp_totalPages = 2, tp_nextURL = None\<rparr>"

text \<open>
  A world in which nothing fails: the HTML of a page is stood for by its URL (\<open>p1\<close> and
  \<open>p2\<close> are the two pages of the thread), file names are already clean, and paths are
  joined with a slash.
\<close>

definition ex_world :: world where
  "ex_world = \<lparr>
     sanitizeFilename = (\<lambda>name. name),
     path_resolve = (\<lambda>dir name. dir @ ''/'' @ name),
     path_sep = ''/'',
     url_href = (\<lambda>u. Some u),
     fetchPage = (\<lambda>u. Inr u),
     parseThreadPage = (\<lambda>html u.
        if html = ''p1'' then Inr ex_page1
        else if html = ''p2'' then Inr ex_page2
        else Inl (OtherError ''Failed to obtain thread ID'')),
     parseForumPage = (\<lambda>html u. Inl (OtherError ''Failed to obtain forum ID'')),
     parseGenericPage = (\<lambda>html u. Inr \<lparr>gp_forums = []\<rparr>),
     fetchFilenameByHeaders = (\<lambda>u. Inr (Some ''photo.jpg'')),
     downloadAttachmentTo = (\<lambda>source target. None),
     fs_err = (\<lambda>op. None)\<rparr>"

text \<open>The configuration \<open>-d -\<close>: everything is saved directly to the output directory.\<close>

definition flat_config :: DownloaderConfig where
  "flat_config = \<lparr>outDir = ''/out'', dirStructure_site = False,
     dirStructure_parentForumsAndSections = ParentsNone, dirStructure_thread = False,
     dirStructure_attachments = False, request_maxRetries = 3, request_maxConcurrent = 10,
     request_minTime_page = 500, request_minTime_attachment = 200, overwrite = False,
     config_continue = False, targetURL = ''p1''\<rparr>"

definition ex_state :: state where
  "ex_state = \<lparr>stats = initialStats, files = (\<lambda>p. None), trace = []\<rparr>"

text \<open>The context of a run that continues after message \<open>m\<close>.\<close>

definition ex_context :: "int \<Rightarrow> DownloadThreadContext option" where
  "ex_context m = Some \<lparr>continued = True, continueFromMessageID = Some m\<rparr>"

subsection \<open>A thread below a category and a forum\<close>

definition ex_crumbs :: "Breadcrumb list" where
  "ex_crumbs =
     [\<lparr>crumb_url = ''https://forum.example/'', crumb_title = ''Site''\<rparr>,
      \<lparr>crumb_url = ''https://forum.example/forums/categorya.3/'', crumb_title = ''CategoryA''\<rparr>,
      \<lparr>crumb_url = ''https://forum.example/forums/forumb.7/'', crumb_title = ''ForumB''\<rparr>]"

definition hello_page :: ThreadPage where
  "hello_page = \<lparr>tp_id = 42, tp_url = ''https://forum.example/threads/hello.42/'',
     tp_title = ''Hello'', tp_breadcrumbs = ex_crumbs, tp_messages = [],
     tp_currentPage = 1, tp_totalPages = 1, tp_nextURL = None\<rparr>"

text \<open>The default configuration \<open>-d splta\<close>.\<close>

definition ex_config :: DownloaderConfig where
  "ex_config = \<lparr>outDir = ''/out'', dirStructure_site = True,
     dirStructure_parentForumsAndSections = ParentsAll, dirStructure_thread = True,
     dirStructure_attachments = True, request_maxRetries = 3, request_maxConcurrent = 10,
     request_minTime_page = 500, request_minTime_attachment = 200, overwrite = False,
     config_continue = False, targetURL = ''https://forum.example/threads/hello.42/''\<rparr>"

text \<open>An attachment, and a disk that already holds its file.\<close>

definition ex_attachment :: ThreadMessageAttachment where
  "ex_attachment = \<lparr>att_id = 7, att_index = 0,
     att_url = ''https://forum.example/attachments/photo-jpg.7/'', att_filename = Some ''photo.jpg''\<rparr>"

definition ex_disk :: state where
  "ex_disk = \<lparr>stats = initialStats,
     files = (\<lambda>p. if p = ''/out/'' @ getMessageAttachmentFilename ex_world ex_attachment
                   then Some [Bytes ''old''] else None),
     trace = []\<rparr>"

subsection \<open>Forums\<close>






subsection \<open>Failing attachment downloads\<close>



subsection \<open>Fetchers\<close>

definition redirect_response :: "string \<Rightarrow> string \<Rightarrow> response" where
  "redirect_response u target = \<lparr>status = 302, statusText = ''Found'', resp_location = Some target,
     resp_disposition = None, resp_body = None, resp_url = u\<rparr>"

definition ok_response :: "string \<Rightarrow> string \<Rightarrow> response" where
  "ok_response u body = \<lparr>status = 200, statusText = ''OK'', resp_location = None,
     resp_disposition = None, resp_body = Some body, resp_url = u\<rparr>"

text \<open>
  A fetcher with a session cookie, and a site whose page \<open>/a\<close> redirects to another
  host, where \<open>/b\<close> redirects to \<open>/c\<close> on that same other host.
\<close>

definition leak_fetcher :: fetcher where
  "leak_fetcher = \<lparr>
     cookie = Some ''xf_session=secret'',
     url_host = (\<lambda>u.
        if u = ''https://forum.example/a'' then Some ''forum.example''
        else if u = ''https://cdn.other/b'' \<or> u = ''https://cdn.other/c'' then Some ''cdn.other''
        else None),
     net = (\<lambda>rt req.
        if req_url req = ''https://forum.example/a'' then
          Inr (redirect_response (req_url req) ''https://cdn.other/b'')
        else if req_url req = ''https://cdn.other/b'' then
          Inr (redirect_response (req_url req) ''https://cdn.other/c'')
        else Inr (ok_response (req_url req) ''data'')),
     net_follow = (\<lambda>rt req. Inl (OtherError ''unused'')),
     read_err = (\<lambda>rt. None),
     mkdir_err = (\<lambda>rt p. None),
     pipe = (\<lambda>rt p. PipeOK),
     rename_err = (\<lambda>rt a b. None),
     unlink_err = (\<lambda>rt p. None)\<rparr>"

text \<open>A network that resets the connection of the first attempt and serves the second.\<close>

definition flaky_fetcher :: fetcher where
  "flaky_fetcher = \<lparr>
     cookie = None,
     url_host = (\<lambda>u. Some ''forum.example''),
     net = (\<lambda>rt req.
        if rt = 0 then Inl (OtherError ''ECONNRESET'')
        else Inr (ok_response (req_url req) ''data'')),
     net_follow = (\<lambda>rt req. Inl (OtherError ''unused'')),
     read_err = (\<lambda>rt. None),
     mkdir_err = (\<lambda>rt p. None),
     pipe = (\<lambda>rt p. PipeOK),
     rename_err = (\<lambda>rt a b. None),
     unlink_err = (\<lambda>rt p. None)\<rparr>"

text \<open>
  A download cancelled after three bytes reached the temporary file, on a file system
  that refuses to unlink.
\<close>

definition stuck_fetcher :: fetcher where
  "stuck_fetcher = \<lparr>
     cookie = None,
     url_host = (\<lambda>u. Some ''forum.example''),
     net = (\<lambda>rt req. Inr (ok_response (req_url req) ''data'')),
     net_follow = (\<lambda>rt req. Inl (OtherError ''unused'')),
     read_err = (\<lambda>rt. None),
     mkdir_err = (\<lambda>rt p. None),
     pipe = (\<lambda>rt p. PipeFailed (AbortError ''The operation was aborted.'') (Some 3)),
     rename_err = (\<lambda>rt a b. None),
     unlink_err = (\<lambda>rt p. Some (OtherError ''EPERM''))\<rparr>"

text \<open>A body stream that breaks during the first attempt and completes in the second.\<close>

definition retry_fetcher :: fetcher where
  "retry_fetcher = \<lparr>
     cookie = None,
     url_host = (\<lambda>u. Some ''forum.example''),
     net = (\<lambda>rt req. Inr (ok_response (req_url req) ''data'')),
     net_follow = (\<lambda>rt req. Inl (OtherError ''unused'')),
     read_err = (\<lambda>rt. None),
     mkdir_err = (\<lambda>rt p. None),
     pipe = (\<lambda>rt p. if rt = 0 then PipeFailed (OtherError ''ECONNRESET'') (Some 3) else PipeOK),
     rename_err = (\<lambda>rt a b. None),
     unlink_err = (\<lambda>rt p. None)\<rparr>"

definition att_params :: DownloadAttachmentParams where
  "att_params = \<lparr>src = ''https://forum.example/attachments/a.1'', dest = ''/out/a.bin'',
     maxRetries = 3, retryInterval = 200\<rparr>"

definition page_args :: fetch_args where
  "page_args = \<lparr>fa_url = ''https://forum.example/attachments/a.1'', fa_maxRetries = 3,
     fa_retryInterval = 200\<rparr>"


section \<open>Properties of the fetcher\<close>

subsection \<open>Redirects and the cookie\<close>

text \<open>
  Claim C3 says that the cookie is attached to a hop only while the host of that hop is
  the host of the original request, and to no hop after the chain has crossed to
  another host.  \<open>#fetchWithRedirect\<close> compares the host of the redirect target with
  the host of the hop that was just made, and does not carry the outcome of earlier
  comparisons along.  On the chain \<open>forum.example/a\<close> to \<open>cdn.other/b\<close> to
  \<open>cdn.other/c\<close> the second request goes out without the cookie and the third one
  carries it again, to a host that is not the host of the original request.
\<close>

theorem C3_cookie_sent_after_host_change:
  "map (\<lambda>r. (req_url r, map_of (req_headers r) ''Cookie''))
     (fst (fetchWithRedirect 5 leak_fetcher 0 ''https://forum.example/a'' GET True)) =
   [(''https://forum.example/a'', Some ''xf_session=secret''),
    (''https://cdn.other/b'', None),
    (''https://cdn.other/c'', Some ''xf_session=secret'')]"
  by code_simp

subsection \<open>Retries of an attachment download\<close>

text \<open>
  Claim C4 says that every failure of an attempt of \<open>downloadAttachment\<close> that is not
  fatal, a network error included, is retried up to \<open>maxRetries\<close> times, as in the
  page fetch.  \<open>downloadAttachment\<close> awaits \<open>#fetchWithRedirect\<close> before its \<open>try\<close>
  block: when the first request fails with a connection reset and three retries are
  allowed, the method throws that error at once, without a pause and without a second
  request, while \<open>fetchHTML\<close> on the same network pauses once, asks again and returns
  the page.
\<close>

theorem C4_network_error_not_retried:
  "snd (snd (downloadAttachment 3 flaky_fetcher att_params 0 Map.empty)) =
     Some (Inl (OtherError ''ECONNRESET'')) \<and>
   sleeps (fst (downloadAttachment 3 flaky_fetcher att_params 0 Map.empty)) = [] \<and>
   length (fst (downloadAttachment 3 flaky_fetcher att_params 0 Map.empty)) = 1 \<and>
   snd (fetchHTML 3 flaky_fetcher page_args 0) =
     Some (Inr (''data'', ''https://forum.example/attachments/a.1'')) \<and>
   sleeps (fst (fetchHTML 3 flaky_fetcher page_args 0)) = [200]"
  by code_simp

subsection \<open>The temporary file and the destination\<close>

lemma tmpFilePath_neq: "tmpFilePath d \<noteq> d"
  by (simp add: tmpFilePath_def)

lemma cleanupDownload_other: "p \<noteq> tmp \<Longrightarrow> cleanupDownload F rt tmp fs p = fs p"
  by (simp add: cleanupDownload_def split: option.splits)

lemma cleanupDownload_tmp: "cleanupDownload F rt tmp fs tmp = None \<or> cleanupDownload F rt tmp fs tmp = fs tmp"
  by (simp add: cleanupDownload_def split: option.splits)

lemma cleanupDownload_unlinked:
  "unlink_err F rt tmp = None \<Longrightarrow> cleanupDownload F rt tmp fs tmp = None"
  by (simp add: cleanupDownload_def split: option.splits)

lemma cleanupDownload_absent: "fs tmp = None \<Longrightarrow> cleanupDownload F rt tmp fs = fs"
  by (simp add: cleanupDownload_def)

lemma commitDownload_Inr:
  assumes "commitDownload F rt tmp d fs = (fs1, Inr u)" and "tmp \<noteq> d"
  shows "fs1 = (fs(d := fs tmp))(tmp := None) \<and> fs tmp \<noteq> None"
  using assms
  by (auto simp: commitDownload_def cleanupDownload_def split: option.splits)

lemma commitDownload_Inl:
  assumes "commitDownload F rt tmp d fs = (fs1, Inl e)"
  shows "fs1 = cleanupDownload F rt tmp fs"
  using assms
  by (auto simp: commitDownload_def split: option.splits)

lemma tryDownload_Inr:
  assumes "tryDownload F params rt res fs = (fs1, Inr u)"
  shows "\<exists>body. resp_body res = Some body \<and> ok res \<and> pipe F rt (tmpFilePath (dest params)) = PipeOK \<and>
           fs1 = (fs(dest params \<mapsto> body))(tmpFilePath (dest params) := None)"
  using assms tmpFilePath_neq[of "dest params"]
  apply (auto simp: tryDownload_def assertResponseOK_def Let_def split: sum.splits option.splits if_splits pipe_outcome.splits prod.splits dest!: commitDownload_Inr)
  done

lemma tryDownload_Inl:
  assumes "tryDownload F params rt res fs = (fs1, Inl e)"
  shows "fs1 (dest params) = fs (dest params)"
    and "p \<noteq> dest params \<Longrightarrow> p \<noteq> tmpFilePath (dest params) \<Longrightarrow> fs1 p = fs p"
    and "unlink_err F rt (tmpFilePath (dest params)) = None \<Longrightarrow>
           fs1 (tmpFilePath (dest params)) = None \<or> fs1 = fs"
  using assms tmpFilePath_neq[of "dest params"]
  by (auto simp: tryDownload_def assertResponseOK_def Let_def cleanupDownload_other cleanupDownload_unlinked
      split: sum.splits option.splits if_splits pipe_outcome.splits prod.splits dest!: commitDownload_Inl)


lemma sleepBeforeExecute_snd [simp]: "snd (sleepBeforeExecute x ms) = snd x"
  by (simp add: sleepBeforeExecute_def)



text \<open>
  Claim C5, as stated, says that on every failing path, cancellation included, the
  \<open>.part\<close> file is deleted.  It is not when the unlink itself fails:
  \<open>#cleanupDownload\<close> catches that error and logs it.  Here the download is cancelled
  after three bytes and the file system refuses the unlink; the method throws the
  \<open>AbortError\<close> and the temporary file stays with its three bytes.
\<close>

theorem C5_part_file_left_behind:
  "snd (snd (downloadAttachment 3 stuck_fetcher att_params 0 Map.empty)) =
     Some (Inl (AbortError ''The operation was aborted.'')) \<and>
   fst (snd (downloadAttachment 3 stuck_fetcher att_params 0 Map.empty))
     (tmpFilePath (dest att_params)) = Some ''dat''"
  by code_simp

text \<open>
  Claim C5, amended: \<open>downloadAttachment\<close> writes the body to \<open>dest.part\<close> and renames
  it onto \<open>dest\<close> only after the stream has completed.  When it returns normally the
  destination holds the complete body of the response of one of its attempts, whose
  stream completed, and no \<open>.part\<close> file is left.  On every other path, cancellation
  and exhausted fuel included, the destination is what it was before the call; and if
  no unlink of the temporary file fails, the \<open>.part\<close> file is gone or is the one that
  was there before the call (when no attempt got as far as creating it).  No other
  file is touched.
\<close>

theorem C5_commit_discipline:
  assumes "downloadAttachment n F params rt fs = (evs, fs', r)"
  shows "(r = Some (Inr ()) \<longrightarrow>
            fs' (tmpFilePath (dest params)) = None \<and>
            (\<exists>t res body. rt \<le> t \<and> t \<le> max rt (maxRetries params) \<and>
               snd (fetchWithRedirect n F t (src params) GET True) = Some (Inr res) \<and>
               resp_body res = Some body \<and> pipe F t (tmpFilePath (dest params)) = PipeOK \<and>
               fs' (dest params) = Some body)) \<and>
         (r \<noteq> Some (Inr ()) \<longrightarrow> fs' (dest params) = fs (dest params)) \<and>
         (r \<noteq> Some (Inr ()) \<longrightarrow> (\<forall>t. unlink_err F t (tmpFilePath (dest params)) = None) \<longrightarrow>
            fs' (tmpFilePath (dest params)) = None \<or>
            fs' (tmpFilePath (dest params)) = fs (tmpFilePath (dest params))) \<and>
         (\<forall>p. p \<noteq> dest params \<and> p \<noteq> tmpFilePath (dest params) \<longrightarrow> fs' p = fs p)"
  using assms
proof (induction n F params rt fs arbitrary: evs fs' r rule: downloadAttachment.induct)
  case (1 n F params rt fs)
  note unfold = downloadAttachment.simps[of n F params rt fs]
  show ?case
  proof (cases "new_Request F (src params) GET")
    case (Inl e)
    with "1.prems" show ?thesis
      by (auto simp: unfold)
  next
    case (Inr request)
    obtain reqs r0 where fw: "fetchWithRedirect n F rt (src params) GET True = (reqs, r0)"
      by (cases "fetchWithRedirect n F rt (src params) GET True")
    show ?thesis
    proof (cases r0)
      case None
      with "1.prems" Inr fw show ?thesis
        by (auto simp: unfold)
    next
      case (Some a)
      show ?thesis
      proof (cases a)
        case (Inl e)
        with "1.prems" Inr fw Some show ?thesis
          by (auto simp: unfold)
      next
        case res: (Inr res)
        obtain fs1 r1 where td: "tryDownload F params rt res fs = (fs1, r1)"
          by (cases "tryDownload F params rt res fs")
        show ?thesis
        proof (cases r1)
          case ok1: (Inr u)
          from tryDownload_Inr[OF td[unfolded ok1]]
          obtain body where b: "resp_body res = Some body"
            "pipe F rt (tmpFilePath (dest params)) = PipeOK"
            "fs1 = (fs(dest params \<mapsto> body))(tmpFilePath (dest params) := None)"
            by auto
          from "1.prems" Inr fw Some res td ok1
          have out: "fs' = fs1" "r = Some (Inr ())"
            by (auto simp: unfold)
          have "snd (fetchWithRedirect n F rt (src params) GET True) = Some (Inr res)"
            using fw Some res by simp
          with b out tmpFilePath_neq[of "dest params"] show ?thesis
            by (auto intro!: exI[of _ rt])
        next
          case bad: (Inl error)
          note tdl = tryDownload_Inl[OF td[unfolded bad]]
          consider (fatal) "isErrorNonContinuable error"
            | (retry) "\<not> isErrorNonContinuable error" "rt < maxRetries params"
            | (giveup) "\<not> isErrorNonContinuable error" "\<not> rt < maxRetries params"
            by blast
          then show ?thesis
          proof cases
            case fatal
            with "1.prems" Inr fw Some res td bad
            have out: "fs' = fs1" "r = Some (Inl error)"
              by (auto simp: unfold)
            with tdl show ?thesis by auto
          next
            case giveup
            with "1.prems" Inr fw Some res td bad
            have out: "fs' = fs1" "r \<noteq> Some (Inr ())"
              by (auto simp: unfold)
            with tdl show ?thesis by auto
          next
            case retry
            obtain evs2 fs2 r2 where rec: "downloadAttachment n F params (Suc rt) fs1 = (evs2, fs2, r2)"
              by (cases "downloadAttachment n F params (Suc rt) fs1") auto
            with "1.prems" Inr fw Some res td bad retry
            have out: "fs' = fs2" "r = r2"
              by (auto simp: unfold sleepBeforeExecute_def)
            note ih = "1.IH"[OF Inr refl fw[symmetric] Some res refl td[symmetric] bad retry rec]
            have le: "\<And>t. Suc rt \<le> t \<Longrightarrow> t \<le> max (Suc rt) (maxRetries params) \<Longrightarrow>
                        rt \<le> t \<and> t \<le> max rt (maxRetries params)"
              using retry by auto
            show ?thesis
              unfolding out
              using ih tdl le by (auto; metis)
          qed
        qed
      qed
    qed
  qed
qed


text \<open>
  A run that meets the hypotheses: the stream breaks in the first attempt and completes
  in the second, so the call returns normally; with no retry allowed the same first
  attempt makes the call fail.
\<close>

theorem C5_commit_discipline_witness:
  "fst (snd (downloadAttachment 3 retry_fetcher att_params 0 Map.empty))
     (tmpFilePath (dest att_params)) = None \<and>
   (\<exists>body. fst (snd (downloadAttachment 3 retry_fetcher att_params 0 Map.empty))
      (dest att_params) = Some body) \<and>
   fst (snd (downloadAttachment 3 retry_fetcher (att_params\<lparr>maxRetries := 0\<rparr>) 0 Map.empty))
     (dest att_params) = None \<and>
   fst (snd (downloadAttachment 3 retry_fetcher (att_params\<lparr>maxRetries := 0\<rparr>) 0 Map.empty))
     (tmpFilePath (dest att_params)) = None"
proof -
  let ?good = "downloadAttachment 3 retry_fetcher att_params 0 Map.empty"
  let ?bad = "downloadAttachment 3 retry_fetcher (att_params\<lparr>maxRetries := 0\<rparr>) 0 Map.empty"
  have good: "snd (snd ?good) = Some (Inr ())"
    by code_simp
  have bad: "snd (snd ?bad) \<noteq> Some (Inr ())"
    by code_simp
  have unlink: "\<forall>t. unlink_err retry_fetcher t (tmpFilePath (dest att_params)) = None"
    by (simp add: retry_fetcher_def)
  have d: "dest (att_params\<lparr>maxRetries := 0\<rparr>) = dest att_params"
    by simp
  have run_good: "?good = (fst ?good, fst (snd ?good), snd (snd ?good))"
    and run_bad: "?bad = (fst ?bad, fst (snd ?bad), snd (snd ?bad))"
    by simp_all
  from C5_commit_discipline[OF run_good] good
  have g: "fst (snd ?good) (tmpFilePath (dest att_params)) = None"
          "\<exists>body. fst (snd ?good) (dest att_params) = Some body"
    by auto
  from C5_commit_discipline[OF run_bad] bad unlink
  have b: "fst (snd ?bad) (dest att_params) = None"
          "fst (snd ?bad) (tmpFilePath (dest att_params)) = None"
    unfolding d by auto
  from g b show ?thesis by blast
qed

section \<open>Properties of the downloader\<close>

text \<open>The definitions a run on a concrete input unfolds.\<close>

lemmas model_defs =
  threadTry_def processThreadPage_def dropContinued_def previousDownload_def contextContinued_def
  continuedFromMessage_def createMessageFile_def saveMessage_def saveDownloadStatus_def
  getDownloadStatusFilePath_def getThreadSavePath_def catchContinuable_def emit_def
  downloadMessageAttachment_def getMessageAttachmentFilename_def log_error_def log_warn_def
  updateStatsOnError_def initialStats_def Let_def

lemmas example_defs =
  ex_world_def flat_config_def ex_page1_def ex_page2_def ex_message_def ex_state_def
  ex_context_def

subsection \<open>What each step adds to the trace\<close>

lemma saved_ids_append: "saved_ids (xs @ ys) = saved_ids xs @ saved_ids ys"
  by (induction xs rule: saved_ids.induct) auto

lemma status_ids_append: "status_ids (xs @ ys) = status_ids xs @ status_ids ys"
  by (induction xs rule: status_ids.induct) auto

lemma page_ids_append: "page_ids (xs @ ys) = page_ids xs @ page_ids ys"
  by (induction xs rule: page_ids.induct) auto

lemma plain_projections:
  "list_all plain evs \<Longrightarrow> saved_ids evs = [] \<and> status_ids evs = [] \<and> page_ids evs = []"
proof (induction evs)
  case Nil
  then show ?case by simp
next
  case (Cons e evs)
  then show ?case by (cases e) auto
qed

lemma markers_append:
  "markers_follow_appends q (xs @ ys) =
     (markers_follow_appends q xs \<and>
      markers_follow_appends (if xs = [] then q else Some (last xs)) ys)"
  by (induction q xs rule: markers_follow_appends.induct) auto

lemma markers_plain: "list_all plain evs \<Longrightarrow> markers_follow_appends q evs"
  by (induction q evs rule: markers_follow_appends.induct) auto

lemma trace_emit [simp]: "trace (emit e s) = trace s @ [e]"
  and stats_emit [simp]: "stats (emit e s) = stats s"
  and files_emit [simp]: "files (emit e s) = files s"
  by (simp_all add: emit_def)

lemma log_error_frame:
  "\<exists>evs. trace (log_error e s) = trace s @ evs \<and> list_all plain evs \<and>
     (evs = [] \<or> evs = [LogError e])"
  and stats_log_error [simp]: "stats (log_error e s) = stats s"
  and files_log_error [simp]: "files (log_error e s) = files s"
  by (simp_all add: log_error_def)

lemma log_warn_frame:
  "\<exists>evs. trace (log_warn e s) = trace s @ evs \<and> list_all plain evs"
  and stats_log_warn [simp]: "stats (log_warn e s) = stats s"
  and files_log_warn [simp]: "files (log_warn e s) = files s"
  by (simp_all add: log_warn_def)

lemma updateStatsOnError_frame [simp]:
  "trace (updateStatsOnError e s) = trace s"
  "files (updateStatsOnError e s) = files s"
  "processedMessageCount (stats (updateStatsOnError e s)) = processedMessageCount (stats s)"
  "processedThreadCount (stats (updateStatsOnError e s)) = processedThreadCount (stats s)"
  "processedForumCount (stats (updateStatsOnError e s)) = processedForumCount (stats s)"
  "skippedExistingAttachmentCount (stats (updateStatsOnError e s)) = skippedExistingAttachmentCount (stats s)"
  "downloadedAttachmentCount (stats (updateStatsOnError e s)) = downloadedAttachmentCount (stats s)"
  by (simp_all add: updateStatsOnError_def)

lemma downloadMessageAttachment_frame:
  assumes "downloadMessageAttachment W cfg a destDir s = (r, s')"
  shows "\<exists>evs. trace s' = trace s @ evs \<and> list_all plain evs"
    and "processedMessageCount (stats s') = processedMessageCount (stats s)"
  using assms
  by (auto simp: downloadMessageAttachment_def Let_def log_error_def split: if_splits option.splits)

lemma downloadMessageAttachments_frame:
  assumes "downloadMessageAttachments W cfg as destDir s = (r, s')"
  shows "(\<exists>evs. trace s' = trace s @ evs \<and> list_all plain evs) \<and>
         processedMessageCount (stats s') = processedMessageCount (stats s)"
  using assms
proof (induction as arbitrary: s)
  case Nil
  then show ?case by simp
next
  case (Cons a as)
  obtain r1 s1 where a: "downloadMessageAttachment W cfg a destDir s = (r1, s1)"
    by (cases "downloadMessageAttachment W cfg a destDir s")
  note f = downloadMessageAttachment_frame[OF a]
  show ?case
  proof (cases r1)
    case (Inl e)
    with Cons.prems a f show ?thesis by auto
  next
    case (Inr u)
    with Cons.prems a have "downloadMessageAttachments W cfg as destDir s1 = (r, s')" by simp
    from Cons.IH[OF this] f show ?thesis by auto
  qed
qed

lemma setAttachmentFilenames_frame:
  assumes "setAttachmentFilenames W as s = (r, s')"
  shows "(\<exists>evs. trace s' = trace s @ evs \<and> list_all plain evs) \<and> stats s' = stats s \<and> files s' = files s \<and>
         (\<forall>as'. r = Inr as' \<longrightarrow> length as' = length as)"
  using assms
proof (induction as arbitrary: s r s')
  case Nil
  then show ?case by auto
next
  case (Cons a as)
  show ?case
    using Cons.prems
    apply (auto simp: Let_def log_warn_def split: option.splits sum.splits prod.splits if_splits dest!: Cons.IH)
    done
qed


lemma setMessageFilenames_frame:
  assumes "setMessageFilenames W ms s = (r, s')"
  shows "(\<exists>evs. trace s' = trace s @ evs \<and> list_all plain evs) \<and> stats s' = stats s \<and> files s' = files s \<and>
         (\<forall>ms'. r = Inr ms' \<longrightarrow> map msg_id ms' = map msg_id ms)"
  using assms
proof (induction ms arbitrary: s r s')
  case Nil
  then show ?case by auto
next
  case (Cons m ms)
  obtain r1 s1 where a: "setAttachmentFilenames W (msg_attachments m) s = (r1, s1)"
    by (cases "setAttachmentFilenames W (msg_attachments m) s")
  note f = setAttachmentFilenames_frame[OF a]
  show ?case
  proof (cases r1)
    case (Inl e)
    with Cons.prems a have "s' = s1" "r = Inl e" by simp_all
    with f show ?thesis by auto
  next
    case (Inr as')
    obtain r2 s2 where b: "setMessageFilenames W ms s1 = (r2, s2)"
      by (cases "setMessageFilenames W ms s1")
    note ih = Cons.IH[OF b]
    have tr: "\<exists>evs. trace s2 = trace s @ evs \<and> list_all plain evs"
      using f ih by auto
    have fr: "stats s2 = stats s" "files s2 = files s"
      using f ih by auto
    show ?thesis
    proof (cases r2)
      case e2: (Inl e)
      with Cons.prems a Inr b have "s' = s2" "r = Inl e" by simp_all
      with tr fr show ?thesis by simp
    next
      case m2: (Inr ms')
      with Cons.prems a Inr b have "s' = s2" "r = Inr (m\<lparr>msg_attachments := as'\<rparr> # ms')" by simp_all
      with tr fr ih m2 show ?thesis by simp
    qed
  qed
qed

lemma createMessageFile_frame:
  assumes "createMessageFile W tp destDir ow s = (r, s')"
  shows "trace s' = trace s \<and> stats s' = stats s"
  using assms
  by (auto simp: createMessageFile_def Let_def split: if_splits option.splits)

lemma saveMessage_frame:
  assumes "saveMessage W m file s = (r, s')"
  shows "stats s' = stats s \<and>
         (case r of Inl e \<Rightarrow> s' = s | Inr u \<Rightarrow> trace s' = trace s @ [SaveMessage file (msg_id m)])"
  using assms
  by (auto simp: saveMessage_def Let_def split: if_splits option.splits)

lemma saveDownloadStatus_frame:
  "stats (saveDownloadStatus W tp m p s) = stats s \<and>
   (\<exists>evs. trace (saveDownloadStatus W tp m p s) = trace s @ evs \<and>
      (list_all plain evs \<or> (\<exists>file d. evs = [WriteStatus file d] \<and> messageID d = msg_id m)))"
  by (auto simp: saveDownloadStatus_def Let_def log_error_def split: option.splits)

text \<open>What one page's loop adds to the trace.\<close>

lemma processMessages_trace:
  assumes "processMessages W cfg tp sp ap mf msgs s = (r, s')"
  shows "\<exists>evs k. trace s' = trace s @ evs \<and> k \<le> length msgs \<and>
           saved_ids evs = take k (map msg_id msgs) \<and>
           (r = Inr () \<longrightarrow> k = length msgs) \<and>
           subseq (status_ids evs) (map msg_id msgs) \<and>
           page_ids evs = [] \<and>
           (\<forall>q. markers_follow_appends q evs) \<and>
           processedMessageCount (stats s') = processedMessageCount (stats s) + k"
  using assms
proof (induction msgs arbitrary: s)
  case Nil
  then show ?case by auto
next
  case (Cons m msgs)
  define att where "att = (if msg_attachments m \<noteq> [] then
               (case fs_err W (EnsureDir ap) of
                  Some e \<Rightarrow> (Inl e, s)
                | None \<Rightarrow> downloadMessageAttachments W cfg (msg_attachments m) ap s)
             else (Inr (), s))"
  obtain r1 s1 where a: "att = (r1, s1)" by (cases att)
  have f1: "(\<exists>evs. trace s1 = trace s @ evs \<and> list_all plain evs) \<and>
         processedMessageCount (stats s1) = processedMessageCount (stats s)"
    using a downloadMessageAttachments_frame[of W cfg "msg_attachments m" ap s r1 s1]
    by (auto simp: att_def split: if_splits option.splits)
  then obtain evs1 where e1: "trace s1 = trace s @ evs1" "list_all plain evs1"
    and c1: "processedMessageCount (stats s1) = processedMessageCount (stats s)" by auto
  note p1 = plain_projections[OF e1(2)] markers_plain[OF e1(2)]
  show ?case
  proof (cases r1)
    case (Inl e)
    with Cons.prems a have "s' = s1" "r = Inl e"
      by (auto simp: att_def[symmetric] Let_def)
    with e1 c1 p1 show ?thesis
      by (intro exI[of _ evs1] exI[of _ 0]) auto
  next
    case (Inr u)
    obtain r2 s2 where b: "saveMessage W m mf s1 = (r2, s2)" by (cases "saveMessage W m mf s1")
    note f2 = saveMessage_frame[OF b]
    show ?thesis
    proof (cases r2)
      case (Inl e)
      with Cons.prems a Inr b have "s' = s2" "r = Inl e"
        by (auto simp: att_def[symmetric] Let_def)
      with f2 Inl e1 c1 p1 show ?thesis
        by (intro exI[of _ evs1] exI[of _ 0]) auto
    next
      case ok2: (Inr u2)
      define s3 where "s3 = s2\<lparr>stats := (stats s2)\<lparr>processedMessageCount := processedMessageCount (stats s2) + 1\<rparr>\<rparr>"
      define s4 where "s4 = saveDownloadStatus W tp m sp s3"
      from Cons.prems a Inr b ok2 have rec: "processMessages W cfg tp sp ap mf msgs s4 = (r, s')"
        by (auto simp: att_def[symmetric] Let_def s3_def s4_def)
      from Cons.IH[OF rec] obtain evs k where ih: "trace s' = trace s4 @ evs" "k \<le> length msgs"
           "saved_ids evs = take k (map msg_id msgs)"
           "r = Inr () \<longrightarrow> k = length msgs"
           "subseq (status_ids evs) (map msg_id msgs)"
           "page_ids evs = []"
           "\<forall>q. markers_follow_appends q evs"
           "processedMessageCount (stats s') = processedMessageCount (stats s4) + k"
        by blast
      have t2: "trace s2 = trace s1 @ [SaveMessage mf (msg_id m)]" "stats s2 = stats s1"
        using f2 ok2 by auto
      from saveDownloadStatus_frame[of W tp m sp s3]
      obtain evs4 where e4: "trace s4 = trace s3 @ evs4"
        "list_all plain evs4 \<or> (\<exists>file d. evs4 = [WriteStatus file d] \<and> messageID d = msg_id m)"
        and c4: "stats s4 = stats s3"
        unfolding s4_def by auto
      have t3: "trace s3 = trace s2" by (simp add: s3_def)
      let ?new = "evs1 @ [SaveMessage mf (msg_id m)] @ evs4 @ evs"
      have tr: "trace s' = trace s @ ?new"
        using ih(1) e4(1) t3 t2 e1 by simp
      have st4: "status_ids evs4 = [] \<or> status_ids evs4 = [msg_id m]"
        using e4(2) plain_projections by auto
      have sv4: "saved_ids evs4 = []" and pg4: "page_ids evs4 = []"
        using e4(2) plain_projections by auto
      have mk4: "markers_follow_appends (Some (SaveMessage mf (msg_id m))) evs4"
        using e4(2) markers_plain by auto
      have cnt: "processedMessageCount (stats s') = processedMessageCount (stats s) + Suc k"
        using ih(8) c4 c1 t2 by (simp add: s3_def)
      have sub: "subseq (status_ids ?new) (msg_id m # map msg_id msgs)"
        using st4 ih(5) p1 by (auto simp: status_ids_append)
      have mk: "\<forall>q. markers_follow_appends q ?new"
        using p1 mk4 ih(7) by (simp add: markers_append)
      show ?thesis
        apply (intro exI[of _ ?new] exI[of _ "Suc k"])
        using tr ih cnt sub mk p1 sv4 pg4
        by (simp add: saved_ids_append page_ids_append)
    qed
  qed
qed


lemma processThreadPage_trace:
  assumes "processThreadPage W cfg ctx tp s = (r, s')"
  shows "\<exists>evs k. trace s' = trace s @ evs \<and>
           k \<le> length (dropContinued ctx (tp_messages tp)) \<and>
           saved_ids evs = take k (map msg_id (dropContinued ctx (tp_messages tp))) \<and>
           (r = Inr () \<longrightarrow> k = length (dropContinued ctx (tp_messages tp))) \<and>
           subseq (status_ids evs) (page_ids evs) \<and>
           (\<forall>q. markers_follow_appends q evs) \<and>
           processedMessageCount (stats s') = processedMessageCount (stats s) + k"
proof -
  let ?rem = "dropContinued ctx (tp_messages tp)"
  obtain r1 s1 where a: "setMessageFilenames W ?rem s = (r1, s1)"
    by (cases "setMessageFilenames W ?rem s")
  from setMessageFilenames_frame[OF a] obtain evs1 where
    e1: "trace s1 = trace s @ evs1" "list_all plain evs1" and c1: "stats s1 = stats s"
    and ids: "\<forall>ms'. r1 = Inr ms' \<longrightarrow> map msg_id ms' = map msg_id ?rem"
    by auto
  note p1 = plain_projections[OF e1(2)] markers_plain[OF e1(2)]
  show ?thesis
  proof (cases r1)
    case (Inl e)
    with assms a have "s' = s1" "r = Inl e"
      by (simp_all add: processThreadPage_def Let_def)
    with e1 c1 p1 show ?thesis
      by (intro exI[of _ evs1] exI[of _ 0]) auto
  next
    case (Inr msgs)
    define tp2 where "tp2 = tp\<lparr>tp_messages := msgs\<rparr>"
    define s2 where "s2 = emit (ParsedThreadPage tp2) s1"
    define sp where "sp = getThreadSavePath W cfg tp2"
    define ap where "ap = (if dirStructure_attachments cfg then path_resolve W sp ''attachments'' else sp)"
    have m: "map msg_id msgs = map msg_id ?rem" using ids Inr by simp
    then have len: "length msgs = length ?rem" by (metis length_map)
    let ?pre = "evs1 @ [ParsedThreadPage tp2]"
    have t2: "trace s2 = trace s @ ?pre" "stats s2 = stats s"
      using e1 c1 by (simp_all add: s2_def)
    have pre: "saved_ids ?pre = []" "status_ids ?pre = []" "page_ids ?pre = map msg_id ?rem"
      "\<forall>q. markers_follow_appends q ?pre"
      using p1 m by (simp_all add: saved_ids_append status_ids_append page_ids_append markers_append tp2_def)
    have early: "s' = s2 \<Longrightarrow> r \<noteq> Inr () \<Longrightarrow> ?thesis"
      using t2 pre by (intro exI[of _ ?pre] exI[of _ 0]) auto
    show ?thesis
    proof (cases "fs_err W (EnsureDir sp)")
      case (Some e)
      with assms a Inr have "s' = s2" "r = Inl e"
        by (simp_all add: processThreadPage_def Let_def tp2_def s2_def sp_def)
      with early show ?thesis by simp
    next
      case None
      obtain r3 s3 where c: "createMessageFile W tp2 sp (\<not> continuedFromMessage ctx) s2 = (r3, s3)"
        by (cases "createMessageFile W tp2 sp (\<not> continuedFromMessage ctx) s2")
      note f3 = createMessageFile_frame[OF c]
      show ?thesis
      proof (cases r3)
        case (Inl e)
        with assms a Inr None c have "s' = s3" "r = Inl e"
          by (simp_all add: processThreadPage_def Let_def tp2_def s2_def sp_def)
        with f3 t2 pre show ?thesis
          by (intro exI[of _ ?pre] exI[of _ 0]) auto
      next
        case mf: (Inr messageFile)
        with assms a Inr None c
        have pm: "processMessages W cfg tp2 sp ap messageFile msgs s3 = (r, s')"
          by (cases "dirStructure_attachments cfg")
             (simp_all add: processThreadPage_def Let_def tp2_def s2_def sp_def ap_def)
        from processMessages_trace[OF pm] obtain evs k where ih:
           "trace s' = trace s3 @ evs" "k \<le> length msgs"
           "saved_ids evs = take k (map msg_id msgs)"
           "r = Inr () \<longrightarrow> k = length msgs"
           "subseq (status_ids evs) (map msg_id msgs)"
           "page_ids evs = []"
           "\<forall>q. markers_follow_appends q evs"
           "processedMessageCount (stats s') = processedMessageCount (stats s3) + k"
          by blast
        have tr: "trace s' = trace s @ (?pre @ evs)"
          using ih(1) f3 t2 by simp
        have cnt: "processedMessageCount (stats s') = processedMessageCount (stats s) + k"
          using ih(8) f3 t2 by simp
        have sub: "subseq (status_ids (?pre @ evs)) (page_ids (?pre @ evs))"
          using ih(5,6) pre m by (simp add: status_ids_append page_ids_append)
        have mk: "\<forall>q. markers_follow_appends q (?pre @ evs)"
          using pre(4) ih(7) by (simp add: markers_append)
        have sv: "saved_ids (?pre @ evs) = take k (map msg_id ?rem)"
          using pre(1) ih(3) m by (simp add: saved_ids_append)
        show ?thesis
          apply (intro exI[of _ "?pre @ evs"] exI[of _ k])
          using tr cnt sub mk sv ih(2,4) len by simp
      qed
    qed
  qed
qed

lemma catchContinuable_frame:
  "catchContinuable e s = Inl e' \<Longrightarrow> e' = e \<and> isErrorNonContinuable e"
  "catchContinuable e s = Inr s1 \<Longrightarrow> \<not> isErrorNonContinuable e \<and>
     (\<exists>evs. trace s1 = trace s @ evs \<and> list_all plain evs) \<and>
     processedMessageCount (stats s1) = processedMessageCount (stats s)"
  by (auto simp: catchContinuable_def log_error_def split: if_splits)

lemma previousDownload_frame:
  "previousDownload W cfg ctx tp s = (p, s1) \<Longrightarrow>
     (\<exists>evs. trace s1 = trace s @ evs \<and> list_all plain evs) \<and> stats s1 = stats s"
  by (auto simp: previousDownload_def log_error_def split: if_splits sum.splits option.splits)

lemma threadTry_trace:
  assumes "threadTry W cfg u ctx s = (t, s')"
  shows "\<exists>evs. trace s' = trace s @ evs \<and> subseq (status_ids evs) (page_ids evs) \<and>
           (\<forall>q. markers_follow_appends q evs)"
proof -
  define s0 where "s0 = emit (FetchPage u) s"
  have plain_case: "(\<exists>evs. trace s' = trace s0 @ evs \<and> list_all plain evs) \<Longrightarrow> ?thesis"
  proof -
    assume "\<exists>evs. trace s' = trace s0 @ evs \<and> list_all plain evs"
    then obtain evs where "trace s' = trace s @ (FetchPage u # evs)" "list_all plain (FetchPage u # evs)"
      by (auto simp: s0_def)
    with plain_projections[OF this(2)] markers_plain[OF this(2)] show ?thesis
      by (intro exI[of _ "FetchPage u # evs"]) simp
  qed
  show ?thesis
  proof (cases "fetchPage W u")
    case (Inl e)
    with assms show ?thesis
      by (intro plain_case)
         (auto simp: threadTry_def Let_def s0_def[symmetric] split: sum.splits dest: catchContinuable_frame)
  next
    case (Inr html)
    show ?thesis
    proof (cases "parseThreadPage W html u")
      case (Inl e)
      with assms Inr show ?thesis
        by (intro plain_case)
           (auto simp: threadTry_def Let_def s0_def[symmetric] split: sum.splits dest: catchContinuable_frame)
    next
      case tp: (Inr threadPage)
      obtain p s1 where pd: "previousDownload W cfg ctx threadPage s0 = (p, s1)"
        by (cases "previousDownload W cfg ctx threadPage s0")
      from previousDownload_frame[OF pd] obtain evs1 where e1: "trace s1 = trace s0 @ evs1" "list_all plain evs1"
        by auto
      show ?thesis
      proof (cases p)
        case (Some d)
        with assms Inr tp pd have "s' = s1"
          by (simp add: threadTry_def Let_def s0_def[symmetric])
        with e1 show ?thesis by (intro plain_case) auto
      next
        case None
        obtain r2 s2 where pp: "processThreadPage W cfg ctx threadPage s1 = (r2, s2)"
          by (cases "processThreadPage W cfg ctx threadPage s1")
        from processThreadPage_trace[OF pp] obtain evs2 where e2: "trace s2 = trace s1 @ evs2"
          "subseq (status_ids evs2) (page_ids evs2)" "\<forall>q. markers_follow_appends q evs2"
          by blast
        have "\<exists>evs3. trace s' = trace s2 @ evs3 \<and> list_all plain evs3"
          using assms Inr tp pd None pp
          by (auto simp: threadTry_def Let_def s0_def[symmetric] split: sum.splits dest: catchContinuable_frame)
        then obtain evs3 where e3: "trace s' = trace s2 @ evs3" "list_all plain evs3" by auto
        let ?new = "(FetchPage u # evs1) @ evs2 @ evs3"
        have pl: "list_all plain (FetchPage u # evs1)" using e1 by simp
        note p1 = plain_projections[OF pl] markers_plain[OF pl]
        note p3 = plain_projections[OF e3(2)] markers_plain[OF e3(2)]
        have "trace s' = trace s @ ?new"
          using e1 e2 e3 by (simp add: s0_def)
        moreover have "subseq (status_ids ?new) (page_ids ?new)"
          using p1(1) p3(1) e2(2) by (simp only: status_ids_append page_ids_append) simp
        moreover have "\<forall>q. markers_follow_appends q ?new"
          using p1(2) p3(2) e2(3) by (simp only: markers_append) simp
        ultimately show ?thesis by blast
      qed
    qed
  qed
qed

lemma downloadThread_trace:
  assumes "downloadThread n W cfg u ctx s = (r, s')"
  shows "\<exists>evs. trace s' = trace s @ evs \<and> subseq (status_ids evs) (page_ids evs) \<and>
           (\<forall>q. markers_follow_appends q evs)"
  using assms
proof (induction n arbitrary: u ctx s)
  case 0
  then show ?case by (intro exI[of _ "[]"]) simp
next
  case (Suc n)
  obtain t s1 where tt: "threadTry W cfg u ctx s = (t, s1)" by (cases "threadTry W cfg u ctx s")
  from threadTry_trace[OF tt] obtain evs1 where e1: "trace s1 = trace s @ evs1"
    "subseq (status_ids evs1) (page_ids evs1)" "\<forall>q. markers_follow_appends q evs1"
    by blast
  have done_here: "trace s' = trace s1 \<Longrightarrow> ?case"
    using e1 by (intro exI[of _ evs1]) simp
  have recursive: "downloadThread n W cfg u' ctx' s1 = (r, s') \<Longrightarrow> ?case" for u' ctx'
  proof -
    assume "downloadThread n W cfg u' ctx' s1 = (r, s')"
    from Suc.IH[OF this] obtain evs2 where e2: "trace s' = trace s1 @ evs2"
      "subseq (status_ids evs2) (page_ids evs2)" "\<forall>q. markers_follow_appends q evs2"
      by blast
    have "trace s' = trace s @ (evs1 @ evs2)" using e1 e2 by simp
    moreover have "subseq (status_ids (evs1 @ evs2)) (page_ids (evs1 @ evs2))"
      using e1(2) e2(2) by (simp add: status_ids_append page_ids_append list_emb_append_mono)
    moreover have "\<forall>q. markers_follow_appends q (evs1 @ evs2)"
      using e1(3) e2(3) by (simp add: markers_append)
    ultimately show ?case by blast
  qed
  show ?case
  proof (cases t)
    case (Redirect d)
    with Suc.prems tt show ?thesis by (intro recursive) simp
  next
    case (Rethrow e)
    with Suc.prems tt show ?thesis by (intro done_here) auto
  next
    case (Settled tpo)
    show ?thesis
    proof (cases tpo)
      case None
      with Suc.prems tt Settled show ?thesis by (intro done_here) auto
    next
      case (Some threadPage)
      show ?thesis
      proof (cases "truthy (tp_nextURL threadPage)")
        case None
        with Suc.prems tt Settled Some show ?thesis by (intro done_here) auto
      next
        case nx: (Some nextURL)
        with Suc.prems tt Settled Some show ?thesis by (intro recursive) simp
      qed
    qed
  qed
qed


subsection \<open>Continuing after a message\<close>












subsection \<open>The resume marker\<close>

lemma sorted_subseq: "subseq xs ys \<Longrightarrow> sorted ys \<Longrightarrow> sorted (xs :: int list)"
  by (auto simp: subseq_conv_nths intro: sorted_nths)


text \<open>
  Claim C2: in a crawl of one thread, whatever the fuel, the context and the state it
  starts from, and whether or not it is cut short: if the message ids of the pages the
  run handles, page after page, are in increasing order (it suffices that they do not
  decrease), then the message ids of the status records written do not decrease; and
  every status record is written directly behind the transcript append of the message
  it names, never before it.
\<close>

theorem C2_markers_advance:
  assumes run: "downloadThread n W cfg u ctx s = (r, s')"
  shows "\<exists>evs. trace s' = trace s @ evs \<and>
           (sorted (page_ids evs) \<longrightarrow> sorted (status_ids evs)) \<and>
           markers_follow_appends None evs"
proof -
  from downloadThread_trace[OF run] obtain evs where
    "trace s' = trace s @ evs" "subseq (status_ids evs) (page_ids evs)"
    "\<forall>q. markers_follow_appends q evs"
    by blast
  then show ?thesis
    by (intro exI[of _ evs]) (auto intro: sorted_subseq)
qed


text \<open>
  The two example pages carry the ids 101, 102 and 103 in this order; the run writes
  the markers 101, 102, 103.
\<close>

theorem C2_markers_advance_witness:
  "sorted (page_ids (trace (snd (downloadThread 5 ex_world flat_config ''p1'' None ex_state)))) \<and>
   sorted (status_ids (trace (snd (downloadThread 5 ex_world flat_config ''p1'' None ex_state)))) \<and>
   markers_follow_appends None (trace (snd (downloadThread 5 ex_world flat_config ''p1'' None ex_state)))"
proof -
  let ?run = "downloadThread 5 ex_world flat_config ''p1'' None ex_state"
  have pages: "page_ids (trace (snd ?run)) = [101, 102, 103]"
    by (simp add: numeral_eq_Suc model_defs example_defs)
  have start: "trace ex_state = []"
    by (simp add: ex_state_def)
  from C2_markers_advance[of 5 ex_world flat_config "''p1''" None ex_state "fst ?run" "snd ?run"]
  obtain evs where "trace (snd ?run) = trace ex_state @ evs"
    "sorted (page_ids evs) \<longrightarrow> sorted (status_ids evs)" "markers_follow_appends None evs"
    by auto
  with pages start show ?thesis by simp
qed

subsection \<open>An attachment that is already there\<close>

text \<open>
  Claim C7: when the destination file of an attachment exists and \<open>overwrite\<close> is
  false, \<open>#downloadMessageAttachment\<close> returns normally without handing anything to the
  fetcher (the trace is unchanged), leaves every file as it is, adds one to
  \<open>skippedExistingAttachmentCount\<close> and leaves \<open>downloadedAttachmentCount\<close> and
  \<open>errorCount\<close> unchanged.
\<close>

theorem C7_existing_attachment_skipped:
  assumes "files s (path_resolve W destDir (getMessageAttachmentFilename W attachment)) \<noteq> None"
      and "\<not> overwrite cfg"
      and "downloadMessageAttachment W cfg attachment destDir s = (r, s')"
  shows "r = Inr () \<and> trace s' = trace s \<and> files s' = files s \<and>
         skippedExistingAttachmentCount (stats s') = skippedExistingAttachmentCount (stats s) + 1 \<and>
         downloadedAttachmentCount (stats s') = downloadedAttachmentCount (stats s) \<and>
         errorCount (stats s') = errorCount (stats s)"
  using assms
  by (auto simp: downloadMessageAttachment_def Let_def)



text \<open>
  The example disk holds the file of the example attachment, and the flat configuration
  does not overwrite.
\<close>

theorem C7_existing_attachment_skipped_witness:
  "fst (downloadMessageAttachment ex_world flat_config ex_attachment ''/out'' ex_disk) = Inr () \<and>
   trace (snd (downloadMessageAttachment ex_world flat_config ex_attachment ''/out'' ex_disk)) = [] \<and>
   files (snd (downloadMessageAttachment ex_world flat_config ex_attachment ''/out'' ex_disk)) =
     files ex_disk \<and>
   skippedExistingAttachmentCount
     (stats (snd (downloadMessageAttachment ex_world flat_config ex_attachment ''/out'' ex_disk))) = 1 \<and>
   downloadedAttachmentCount
     (stats (snd (downloadMessageAttachment ex_world flat_config ex_attachment ''/out'' ex_disk))) = 0"
proof -
  let ?run = "downloadMessageAttachment ex_world flat_config ex_attachment ''/out'' ex_disk"
  have there: "files ex_disk
      (path_resolve ex_world ''/out'' (getMessageAttachmentFilename ex_world ex_attachment)) \<noteq> None"
    by (simp add: ex_disk_def ex_world_def)
  have keep: "\<not> overwrite flat_config"
    by (simp add: flat_config_def)
  have start: "trace ex_disk = []" "skippedExistingAttachmentCount (stats ex_disk) = 0"
    "downloadedAttachmentCount (stats ex_disk) = 0"
    by (simp_all add: ex_disk_def initialStats_def)
  from C7_existing_attachment_skipped[OF there keep, of "fst ?run" "snd ?run"] start
  show ?thesis by simp
qed

subsection \<open>The save directory\<close>

text \<open>
  Claim C8: the configuration enables the site directory, the directories of all
  ancestor forums and the thread directory; the breadcrumbs are the site crumb and two
  ancestors, each with a title and a forum URL from which \<open>parseForumURL\<close> reads an id
  that is not zero; the thread has a title and an id that is not zero.  Then the save
  path is the output directory resolved with the four parts, joined by the path
  separator: the sanitized site title, the sanitized \<open>title.id\<close> of each ancestor with
  the id parsed from its URL, and the sanitized \<open>title.id\<close> of the thread.
\<close>

theorem C8_thread_save_path:
  assumes cfg: "dirStructure_site cfg" "dirStructure_parentForumsAndSections cfg = ParentsAll"
        "dirStructure_thread cfg"
      and crumbs: "tp_breadcrumbs tp = [site, categoryA, forumB]"
      and titles: "crumb_title site \<noteq> []" "crumb_title categoryA \<noteq> []"
        "crumb_title forumB \<noteq> []" "tp_title tp \<noteq> []"
      and ids: "parseForumURL (crumb_url categoryA) = Some (slugA, idA)" "idA \<noteq> 0"
        "parseForumURL (crumb_url forumB) = Some (slugB, idB)" "idB \<noteq> 0" "tp_id tp \<noteq> 0"
  shows "getThreadSavePath W cfg tp =
           path_resolve W (outDir cfg)
             (sanitizeFilename W (crumb_title site) @ path_sep W @
              sanitizeFilename W (crumb_title categoryA @ ''.'' @ show_int idA) @ path_sep W @
              sanitizeFilename W (crumb_title forumB @ ''.'' @ show_int idB) @ path_sep W @
              sanitizeFilename W (tp_title tp @ ''.'' @ show_int (tp_id tp)))"
  using assms
  by (simp add: getThreadSavePath_def Let_def crumbParts_def pushPathPart_def)

text \<open>
  The claim's own instance: breadcrumbs Site, CategoryA (forum 3) and ForumB (forum 7),
  thread \<open>Hello\<close> with id 42, file names already clean, paths joined with a slash.
\<close>

theorem C8_thread_save_path_witness:
  "getThreadSavePath ex_world ex_config hello_page = ''/out/Site/CategoryA.3/ForumB.7/Hello.42''"
proof -
  have a: "parseForumURL ''https://forum.example/forums/categorya.3/'' = Some (''categorya'', 3)"
    by code_simp
  have b: "parseForumURL ''https://forum.example/forums/forumb.7/'' = Some (''forumb'', 7)"
    by code_simp
  have n: "show_int 3 = ''3''" "show_int 7 = ''7''" "show_int 42 = ''42''"
    by code_simp+
  from C8_thread_save_path[of ex_config hello_page
      "\<lparr>crumb_url = ''https://forum.example/'', crumb_title = ''Site''\<rparr>"
      "\<lparr>crumb_url = ''https://forum.example/forums/categorya.3/'', crumb_title = ''CategoryA''\<rparr>"
      "\<lparr>crumb_url = ''https://forum.example/forums/forumb.7/'', crumb_title = ''ForumB''\<rparr>"
      "''categorya''" 3 "''forumb''" 7 ex_world] a b n
  show ?thesis
    by (simp add: ex_config_def hello_page_def ex_crumbs_def ex_world_def)
qed

section \<open>Termination of the traversal\<close>

subsection \<open>Enough fuel for ranked links\<close>

lemma previousDownload_none:
  "contextContinued ctx \<or> \<not> config_continue cfg \<Longrightarrow> previousDownload W cfg ctx tp s = (None, s)"
  by (auto simp: previousDownload_def)















subsection \<open>Two forums that list each other\<close>






subsection \<open>Links that lead downwards\<close>





section \<open>Errors and the units of work\<close>

subsection \<open>What a handler throws and what it has fetched\<close>





















subsection \<open>Attachments and pages that fail\<close>















end
